theory Spec2Isabelle
  imports Main
begin

section \<open>Exceptions, driver calls and the driver's behaviour\<close>

text \<open>
  The seven scripts under \<^verbatim>\<open>testsprite_tests\<close> each define one coroutine \<^verbatim>\<open>run_test\<close>
  with the same shape: acquire a Playwright session, navigate to the base URL, wait
  (tolerantly) for the page and its frames, perform the authored steps, check one
  expected text, sleep, and release the session in a \<^verbatim>\<open>finally\<close> block.

  The exceptions that the scripts distinguish are Playwright's \<^verbatim>\<open>Error\<close> (with its
  subclass \<^verbatim>\<open>TimeoutError\<close>), Python's \<^verbatim>\<open>AssertionError\<close>, and everything else
  (for instance the \<^verbatim>\<open>IndexError\<close> of \<^verbatim>\<open>context.pages[-1]\<close> on an empty list).
\<close>

datatype exn =
    PlaywrightError string
  | PlaywrightTimeoutError string
  | AssertionError string
  | OtherException string

text \<open>\<^verbatim>\<open>except async_api.Error\<close> matches \<^verbatim>\<open>Error\<close> and its subclass \<^verbatim>\<open>TimeoutError\<close>.\<close>

fun isinstance_Error :: "exn \<Rightarrow> bool" where
  "isinstance_Error (PlaywrightError m) = True"
| "isinstance_Error (PlaywrightTimeoutError m) = True"
| "isinstance_Error (AssertionError m) = False"
| "isinstance_Error (OtherException m) = False"

fun isinstance_AssertionError :: "exn \<Rightarrow> bool" where
  "isinstance_AssertionError (AssertionError m) = True"
| "isinstance_AssertionError (PlaywrightError m) = False"
| "isinstance_AssertionError (PlaywrightTimeoutError m) = False"
| "isinstance_AssertionError (OtherException m) = False"

text \<open>
  Every operation that the scripts perform on the outside world, with the arguments
  the scripts pass. \<open>Page_goto url wait_until timeout\<close> carries \<open>None\<close> where the script
  passes no \<^verbatim>\<open>wait_until\<close>; \<open>Elem_click\<close> and \<open>Elem_fill\<close> carry the locator string of
  the element; \<open>Frame_wait_for_load_state i\<close> is the wait on the \<open>i\<close>-th element of
  \<^verbatim>\<open>page.frames\<close>.
\<close>

datatype call =
    Pw_start
  | Chromium_launch bool "string list"
  | Browser_new_context
  | Context_set_default_timeout nat
  | Context_new_page
  | Page_goto string "string option" nat
  | Page_wait_for_load_state string nat
  | Frame_wait_for_load_state nat string nat
  | Asyncio_sleep nat
  | Page_evaluate string
  | Mouse_wheel int int
  | Context_pages_last
  | Page_wait_for_timeout nat
  | Elem_click string nat
  | Elem_fill string string
  | Expect_to_be_visible string nat
  | Context_close
  | Browser_close
  | Pw_stop

text \<open>
  The browser driver and the application under test are not part of the repository:
  they are a parameter. \<open>outcome w n\<close> is what the \<open>n\<close>-th operation of the run does
  (counting from 0): \<open>None\<close> when it returns normally, \<open>Some e\<close> when it raises \<open>e\<close>.
  \<open>page_frames w\<close> is the length of \<^verbatim>\<open>page.frames\<close> when the script iterates over it, and
  \<open>inner_height w\<close> the value that \<^verbatim>\<open>page.evaluate('() => window.innerHeight')\<close> returns.
\<close>

record world =
  outcome :: "nat \<Rightarrow> exn option"
  page_frames :: nat
  inner_height :: int

text \<open>
  The state of one run: the operations performed so far, in order, and the three
  handles of \<^verbatim>\<open>run_test\<close>. A handle is \<open>False\<close> while the variable is \<^verbatim>\<open>None\<close> and
  \<open>True\<close> once a Playwright object (which is truthy) has been assigned to it.
\<close>

record state =
  trace :: "call list"
  pw :: bool
  browser :: bool
  context_h :: bool

definition init_state :: state where
  "init_state = \<lparr>trace = [], pw = False, browser = False, context_h = False\<rparr>"

section \<open>Statements\<close>

type_synonym prog = "world \<Rightarrow> state \<Rightarrow> (exn + unit) \<times> state"

text \<open>A call of the driver: recorded, then it returns or raises as the world says.\<close>

definition perform :: "call \<Rightarrow> prog" where
  "perform c w s =
     (case outcome w (length (trace s)) of
        None \<Rightarrow> (Inr (), s\<lparr>trace := trace s @ [c]\<rparr>)
      | Some e \<Rightarrow> (Inl e, s\<lparr>trace := trace s @ [c]\<rparr>))"

text \<open>
  \<^verbatim>\<open>await asyncio.sleep(d)\<close> only suspends the coroutine; the scripts never cancel
  their task, so it always returns.
\<close>

definition asyncio_sleep :: "nat \<Rightarrow> prog" where
  "asyncio_sleep d w s = (Inr (), s\<lparr>trace := trace s @ [Asyncio_sleep d]\<rparr>)"

text \<open>A sequence of statements: the first exception ends it.\<close>

fun block :: "prog list \<Rightarrow> prog" where
  "block [] w s = (Inr (), s)"
| "block (p # ps) w s =
     (case p w s of
        (Inl e, s') \<Rightarrow> (Inl e, s')
      | (Inr u, s') \<Rightarrow> block ps w s')"

text \<open>\<^verbatim>\<open>x = await f()\<close>: the assignment happens only when the call returns.\<close>

definition assign :: "(state \<Rightarrow> state) \<Rightarrow> prog \<Rightarrow> prog" where
  "assign upd p w s =
     (case p w s of
        (Inl e, s') \<Rightarrow> (Inl e, s')
      | (Inr u, s') \<Rightarrow> (Inr (), upd s'))"

text \<open>\<^verbatim>\<open>try: p  except async_api.Error: pass\<close>\<close>

definition try_except_Error_pass :: "prog \<Rightarrow> prog" where
  "try_except_Error_pass p w s =
     (case p w s of
        (Inl e, s') \<Rightarrow> if isinstance_Error e then (Inr (), s') else (Inl e, s')
      | (Inr u, s') \<Rightarrow> (Inr (), s'))"

text \<open>\<^verbatim>\<open>try: p  except AssertionError: raise AssertionError(msg)\<close>\<close>

definition try_except_AssertionError_raise :: "prog \<Rightarrow> string \<Rightarrow> prog" where
  "try_except_AssertionError_raise p msg w s =
     (case p w s of
        (Inl e, s') \<Rightarrow>
          if isinstance_AssertionError e then (Inl (AssertionError msg), s') else (Inl e, s')
      | (Inr u, s') \<Rightarrow> (Inr (), s'))"

text \<open>\<^verbatim>\<open>if h: p\<close> on a handle of the state.\<close>

definition if_handle :: "(state \<Rightarrow> bool) \<Rightarrow> prog \<Rightarrow> prog" where
  "if_handle h p w s = (if h s then p w s else (Inr (), s))"

text \<open>
  \<^verbatim>\<open>try: p  finally: f\<close>: \<open>f\<close> runs whatever \<open>p\<close> did. When \<open>f\<close> raises, its exception
  is the one that leaves the statement; otherwise the outcome of \<open>p\<close> is.
\<close>

definition try_finally :: "prog \<Rightarrow> prog \<Rightarrow> prog" where
  "try_finally p f w s =
     (case p w s of
        (r, s') \<Rightarrow>
          (case f w s' of
             (Inl e, s'') \<Rightarrow> (Inl e, s'')
           | (Inr u, s'') \<Rightarrow> (r, s'')))"

section \<open>Scenarios\<close>

text \<open>
  The authored part of a script is a list of steps of three shapes, a text expected on
  the page with the timeout of the check, and the message of the error raised when the
  text does not show.
\<close>

datatype action = click | fill string

datatype step =
    Navigate string
  | LocateAndAct string action
  | Scroll string

record scenario =
  steps :: "step list"
  expected_text :: string
  assert_timeout :: nat
  failure_message :: string

text \<open>
  \<^verbatim>\<open>await page.goto(url, timeout=10000); await asyncio.sleep(3)\<close>

  \<^verbatim>\<open>frame = context.pages[-1]; elem = frame.locator(sel).nth(0);
  await page.wait_for_timeout(3000); await elem.click(timeout=5000)\<close> (or \<^verbatim>\<open>await elem.fill(v)\<close>)

  \<^verbatim>\<open>await page.mouse.wheel(0, await page.evaluate(js))\<close>
\<close>

fun exec_step :: "step \<Rightarrow> prog" where
  "exec_step (Navigate url) w =
     block [perform (Page_goto url None 10000), asyncio_sleep 3] w"
| "exec_step (LocateAndAct sel click) w =
     block [perform Context_pages_last,
            perform (Page_wait_for_timeout 3000),
            perform (Elem_click sel 5000)] w"
| "exec_step (LocateAndAct sel (fill v)) w =
     block [perform Context_pages_last,
            perform (Page_wait_for_timeout 3000),
            perform (Elem_fill sel v)] w"
| "exec_step (Scroll js) w =
     block [perform (Page_evaluate js),
            perform (Mouse_wheel 0 (inner_height w))] w"

definition launch_args :: "string list" where
  "launch_args =
     [''--window-size=1280,720'', ''--disable-dev-shm-usage'', ''--ipc=host'', ''--single-process'']"

definition base_url :: string where
  "base_url = ''http://localhost:8080/C:'' @ [CHR 0x5C] @ ''Users'' @ [CHR 0x5C]
     @ ''John Patrick Robles'' @ [CHR 0x5C] @ ''Documents'' @ [CHR 0x5C] @ ''firebnb-spark day5''"

text \<open>The body of the \<^verbatim>\<open>try\<close> statement of \<^verbatim>\<open>run_test\<close>.\<close>

definition acquire :: "prog list" where
  "acquire =
     [assign (\<lambda>s. s\<lparr>pw := True\<rparr>) (perform Pw_start),
      assign (\<lambda>s. s\<lparr>browser := True\<rparr>) (perform (Chromium_launch True launch_args)),
      assign (\<lambda>s. s\<lparr>context_h := True\<rparr>) (perform Browser_new_context),
      perform (Context_set_default_timeout 5000),
      perform Context_new_page]"

definition frame_wait :: "nat \<Rightarrow> prog" where
  "frame_wait i =
     try_except_Error_pass (perform (Frame_wait_for_load_state i ''domcontentloaded'' 3000))"

definition open_base :: "world \<Rightarrow> prog list" where
  "open_base w =
     [perform (Page_goto base_url (Some ''commit'') 10000),
      try_except_Error_pass (perform (Page_wait_for_load_state ''domcontentloaded'' 3000)),
      block (map frame_wait [0 ..< page_frames w])]"

definition terminal_assertion :: "scenario \<Rightarrow> prog list" where
  "terminal_assertion sc =
     [perform Context_pages_last,
      try_except_AssertionError_raise
        (perform (Expect_to_be_visible (expected_text sc) (assert_timeout sc)))
        (failure_message sc)]"

definition try_body :: "scenario \<Rightarrow> prog" where
  "try_body sc w =
     block (acquire @ open_base w @ map exec_step (steps sc)
            @ terminal_assertion sc @ [asyncio_sleep 5]) w"

text \<open>The \<^verbatim>\<open>finally\<close> block.\<close>

definition teardown :: prog where
  "teardown =
     block [if_handle context_h (perform Context_close),
            if_handle browser (perform Browser_close),
            if_handle pw (perform Pw_stop)]"

definition run_test :: "scenario \<Rightarrow> world \<Rightarrow> (exn + unit) \<times> state" where
  "run_test sc w = try_finally (try_body sc) teardown w init_state"

subsection \<open>The seven scripts\<close>

definition TC004 :: scenario where
  "TC004 =
    \<lparr>steps =
      [Navigate ''http://localhost:8080/login'',
       Navigate ''http://localhost:8080/'',
       Navigate ''http://localhost:8080/login'',
       LocateAndAct ''xpath=html/body/div/div[2]/div/div/div[2]/div[2]/a'' click,
       LocateAndAct ''xpath=html/body/div/div[2]/section[3]/div/div/div[2]/div/a'' click,
       LocateAndAct ''xpath=html/body/div/div[2]/div[2]/div/div[3]/div/div[2]/form/div/div/input'' (fill ''Test''),
       LocateAndAct ''xpath=html/body/div/div[2]/div[2]/div/div[3]/div/div[2]/form/div[2]/div/input'' (fill ''12345abc''),
       LocateAndAct ''xpath=html/body/div/div[2]/div[2]/div/div[3]/div/div[2]/form/button'' click,
       LocateAndAct ''xpath=html/body/div/div[2]/div[2]/div/div[3]/div/div[2]/form/div/div/input'' (fill ''host@example.com''),
       LocateAndAct ''xpath=html/body/div/div[2]/div[2]/div/div[3]/div/div[2]/form/button'' click,
       LocateAndAct ''xpath=html/body/div/div[2]/div[2]/div/div[3]/div/div[2]/form/button'' click],
     expected_text = ''text=Listing Published Successfully'',
     assert_timeout = 1000,
     failure_message =
       ''Test case failed: The listing creation test did not pass as expected. The listing was not saved as a draft and images were not confirmed uploaded. Expected 'draft' status and image previews, but these were not found on the page.''\<rparr>"

definition TC005 :: scenario where
  "TC005 =
    \<lparr>steps =
      [Navigate ''http://localhost:8080/login'',
       Navigate ''http://localhost:8080/'',
       Navigate ''http://localhost:8080/login'',
       LocateAndAct ''xpath=html/body/div/div[2]/footer/div/div/div[2]/ul/li[4]/a'' click,
       Navigate ''http://localhost:8080/host/listings'',
       Navigate ''http://localhost:8080/admin/listings'',
       LocateAndAct ''xpath=html/body/div/div[2]/div/div/div/div[2]/button'' click,
       LocateAndAct ''xpath=html/body/div[3]/div[2]/button[2]'' click,
       LocateAndAct ''xpath=html/body/div/div[2]/div/div/div/div[2]/button[2]'' click,
       LocateAndAct ''xpath=html/body/div[3]/div[2]/button[2]'' click],
     expected_text = ''text=Listing payment successful and status is now pending approval'',
     assert_timeout = 30000,
     failure_message =
       ''Test case failed: After host pays the listing publish fee via PayPal, the listing status did not change to pending approval as expected, or admin approval/rejection process did not complete successfully.''\<rparr>"

definition TC008 :: scenario where
  "TC008 =
    \<lparr>steps =
      [LocateAndAct ''xpath=html/body/div/div[2]/div/div/div[2]/div[2]/a'' click,
       LocateAndAct ''xpath=html/body/div/div[2]/section[3]/div/div/div/div/a'' click,
       LocateAndAct ''xpath=html/body/div/div[2]/div[2]/div/div[3]/div/div[2]/form/div/div/input'' (fill ''Test''),
       LocateAndAct ''xpath=html/body/div/div[2]/div[2]/div/div[3]/div/div[2]/form/div[2]/div/input'' (fill ''12345abc''),
       LocateAndAct ''xpath=html/body/div/div[2]/div[2]/div/div[3]/div/div[2]/form/button'' click,
       LocateAndAct ''xpath=html/body/div/div[2]/div[2]/div/div[3]/div/div[2]/form/div/div/input'' (fill ''''),
       LocateAndAct ''xpath=html/body/div/div[2]/div[2]/div/div[3]/div/div[2]/form/div/div/input'' (fill ''guest@example.com''),
       LocateAndAct ''xpath=html/body/div/div[2]/div[2]/div/div[3]/div/div[2]/form/div[2]/div/input'' (fill ''12345abc''),
       LocateAndAct ''xpath=html/body/div/div[2]/div[2]/div/div[3]/div/div[2]/form/button'' click,
       LocateAndAct ''xpath=html/body/div'' click],
     expected_text = ''text=Refund Processed Successfully'',
     assert_timeout = 1000,
     failure_message =
       ''Test case failed: The test plan execution failed to verify that the guest can pay using wallet or PayPal and request refunds processed correctly with updated transaction records.''\<rparr>"

definition TC009 :: scenario where
  "TC009 =
    \<lparr>steps =
      [Navigate ''http://localhost:8080/login'',
       Navigate ''http://localhost:8080/'',
       Scroll ''() => window.innerHeight'',
       LocateAndAct ''xpath=html/body/div/div[2]/section[3]/div/div/div/div/a'' click,
       LocateAndAct ''xpath=html/body/div/div[2]/div[2]/div/div[3]/div/div[2]/form/div/div/input'' (fill ''Test''),
       LocateAndAct ''xpath=html/body/div/div[2]/div[2]/div/div[3]/div/div[2]/form/div[2]/div/input'' (fill ''12345abc''),
       LocateAndAct ''xpath=html/body/div/div[2]/div[2]/div/div[3]/div/div[2]/form/button'' click,
       LocateAndAct ''xpath=html/body/div/div[2]/div[2]/div/div[3]/div/div[2]/form/div/div/input'' (fill ''''),
       LocateAndAct ''xpath=html/body/div/div[2]/div[2]/div/div[3]/div/div[2]/form/div/div/input'' (fill ''guest@example.com''),
       LocateAndAct ''xpath=html/body/div/div[2]/div[2]/div/div[3]/div/div[2]/form/div[2]/div/input'' (fill ''12345abc''),
       LocateAndAct ''xpath=html/body/div/div[2]/div[2]/div/div[3]/div/div[2]/form/button'' click,
       LocateAndAct ''xpath=html/body/div/div[2]/div[2]/div/div[3]/div/div[2]/form/div[3]/button'' click,
       LocateAndAct ''xpath=html/body/div/div[2]/div[2]/div/div[3]/form/div/div/input'' (fill ''guest@example.com''),
       LocateAndAct ''xpath=html/body/div/div[2]/div[2]/div/div[3]/form/button'' click,
       LocateAndAct ''xpath=html/body/div/div[2]/div[2]/div/div[3]/div/div[3]/button[2]'' click,
       LocateAndAct ''xpath=html/body/div/div[2]/div[2]/div/div[3]/div/div[2]/form/div/div/input'' (fill ''guest@example.com''),
       LocateAndAct ''xpath=html/body/div/div[2]/div[2]/div/div[3]/div/div[2]/form/div[2]/div/input'' (fill ''newpassword123''),
       LocateAndAct ''xpath=html/body/div/div[2]/div[2]/div/div[3]/div/div[2]/form/button'' click],
     expected_text = ''text=Message delivery confirmed'',
     assert_timeout = 1000,
     failure_message =
       ''Test case failed: Real-time messaging between guests and hosts did not work as expected. Messages were not delivered or received immediately as required by the test plan.''\<rparr>"

definition TC012 :: scenario where
  "TC012 =
    \<lparr>steps =
      [LocateAndAct ''xpath=html/body/div/div[2]/footer/div/div/div[2]/ul/li[4]/a'' click,
       Navigate ''http://localhost:8080/host/dashboard'',
       LocateAndAct ''xpath=html/body/div/div[2]/div[2]/div/div[3]/div/div[2]/form/div/div/input'' (fill ''Test''),
       LocateAndAct ''xpath=html/body/div/div[2]/div[2]/div/div[3]/div/div[2]/form/div[2]/div/input'' (fill ''12345abc''),
       LocateAndAct ''xpath=html/body/div/div[2]/div[2]/div/div[3]/div/div[2]/form/button'' click,
       LocateAndAct ''xpath=html/body/div/div[2]/div[2]/div/div[3]/div/div[2]/form/div/div/input'' (fill ''host@example.com''),
       LocateAndAct ''xpath=html/body/div/div[2]/div[2]/div/div[3]/div/div[2]/form/button'' click,
       LocateAndAct ''xpath=html/body/div/div[2]/div[2]/div/div[3]/div/div[2]/form/button'' click,
       LocateAndAct ''xpath=html/body/div/div[2]/div[2]/div/div[3]/div/div[2]/form/div[3]/button'' click,
       LocateAndAct ''xpath=html/body/div/div[2]/div[2]/div/div[3]/form/div/div/input'' (fill ''host@example.com''),
       LocateAndAct ''xpath=html/body/div/div[2]/div[2]/div/div[3]/form/button'' click,
       LocateAndAct ''xpath=html/body/div/div[2]/div[2]/div/div[3]/div/div[3]/button[2]'' click,
       LocateAndAct ''xpath=html/body/div/div[2]/div[2]/div/div[3]/div/div[2]/form/div/div/input'' (fill ''host@example.com''),
       LocateAndAct ''xpath=html/body/div/div[2]/div[2]/div/div[3]/div/div[2]/form/div[2]/div/input'' (fill ''12345abc''),
       LocateAndAct ''xpath=html/body/div/div[2]/div[2]/div/div[3]/div/div[2]/form/button'' click],
     expected_text = ''text=Booking Confirmed for Blocked Dates'',
     assert_timeout = 1000,
     failure_message =
       ''Test case failed: The availability calendar update and booking restrictions for blocked dates were not reflected correctly as per the test plan.''\<rparr>"

definition TC015 :: scenario where
  "TC015 =
    \<lparr>steps =
      [LocateAndAct ''xpath=html/body/div/div[2]/div/div/div[2]/div[2]/a[2]'' click,
       Navigate ''http://localhost:8080/guest/browse'',
       Navigate ''http://localhost:8080/'',
       LocateAndAct ''xpath=html/body/div/div[2]/section/div[5]/div/div/a'' click,
       LocateAndAct ''xpath=html/body/div/div[2]/div[2]/div/div[3]/div/div[2]/form/div/div/input'' (fill ''guest@example.com''),
       LocateAndAct ''xpath=html/body/div/div[2]/div[2]/div/div[3]/div/div[2]/form/div[2]/div/input'' (fill ''12345abc''),
       LocateAndAct ''xpath=html/body/div/div[2]/div[2]/div/div[3]/div/div[2]/form/button'' click,
       LocateAndAct ''xpath=html/body/div/div[2]/div[2]/div/div[3]/div/div[2]/form/div[2]/div/input'' (fill ''12345abc''),
       LocateAndAct ''xpath=html/body/div/div[2]/div[2]/div/div[3]/div/div[2]/form/button[2]'' click,
       LocateAndAct ''xpath=html/body/div[2]/div/div/div[2]/c-wiz/main/div[2]/div/div/div/form/span/section/div/div/div/div/div/div/div/input'' (fill ''guest@example.com''),
       LocateAndAct ''xpath=html/body/div[2]/div/div/div[2]/c-wiz/main/div[3]/div/div/div/div/button'' click],
     expected_text = ''text=Listing Added to Favorites and Wishlist Successfully'',
     assert_timeout = 1000,
     failure_message =
       ''Test case failed: Guests could not add listings to favorites and wishlists or retrieve them correctly from respective pages as per the test plan.''\<rparr>"

definition TC018 :: scenario where
  "TC018 =
    \<lparr>steps =
      [LocateAndAct ''xpath=html/body/div/div[2]/footer/div/div/div[2]/ul/li[3]/a'' click,
       LocateAndAct ''xpath=html/body/div/div[2]/div[2]/div/div[3]/div/div[2]/form/div/div/input'' (fill ''Test''),
       LocateAndAct ''xpath=html/body/div/div[2]/div[2]/div/div[3]/div/div[2]/form/div[2]/div/input'' (fill ''12345abc''),
       LocateAndAct ''xpath=html/body/div/div[2]/div[2]/div/div[3]/div/div[2]/form/button'' click,
       LocateAndAct ''xpath=html/body/div/div[2]/div[2]/div/div[3]/div/div[2]/form/div/div/input'' (fill ''guest@example.com''),
       LocateAndAct ''xpath=html/body/div/div[2]/div[2]/div/div[3]/div/div[2]/form/button'' click,
       LocateAndAct ''xpath=html/body/div/div[2]/div[2]/div/div[3]/div/div[2]/form/button'' click],
     expected_text = ''text=Platform Load Time Benchmark Exceeded'',
     assert_timeout = 1000,
     failure_message =
       ''Test case failed: The platform pages such as login, dashboards, listing browse, and booking did not load within the defined time benchmarks or the UI was not responsive under typical load as per the test plan.''\<rparr>"

section \<open>Vocabulary of the properties\<close>

fun is_release :: "call \<Rightarrow> bool" where
  "is_release Context_close = True"
| "is_release Browser_close = True"
| "is_release Pw_stop = True"
| "is_release c = False"

fun is_expect :: "call \<Rightarrow> bool" where
  "is_expect (Expect_to_be_visible t n) = True"
| "is_expect c = False"

text \<open>The releases that the \<^verbatim>\<open>finally\<close> block owes in a state: one per handle held.\<close>

definition due_releases :: "state \<Rightarrow> call list" where
  "due_releases s =
     (if context_h s then [Context_close] else [])
     @ (if browser s then [Browser_close] else [])
     @ (if pw s then [Pw_stop] else [])"

text \<open>
  Performing the calls \<open>cs\<close> one after the other from position \<open>n\<close> on, stopping after the
  first that raises: \<open>attempted\<close> is the part of \<open>cs\<close> that is performed, \<open>release_error\<close>
  the exception that stops it, if any.
\<close>

fun attempted :: "(nat \<Rightarrow> exn option) \<Rightarrow> nat \<Rightarrow> call list \<Rightarrow> call list" where
  "attempted out n [] = []"
| "attempted out n (c # cs) =
     c # (case out n of None \<Rightarrow> attempted out (Suc n) cs | Some e \<Rightarrow> [])"

fun release_error :: "(nat \<Rightarrow> exn option) \<Rightarrow> nat \<Rightarrow> call list \<Rightarrow> exn option" where
  "release_error out n [] = None"
| "release_error out n (c # cs) =
     (case out n of None \<Rightarrow> release_error out (Suc n) cs | Some e \<Rightarrow> Some e)"

definition finish :: "world \<Rightarrow> (exn + unit) \<times> state \<Rightarrow> (exn + unit) \<times> state" where
  "finish w rs =
     (case rs of (rb, sb) \<Rightarrow>
        ((case release_error (outcome w) (length (trace sb)) (due_releases sb) of
            None \<Rightarrow> rb
          | Some e \<Rightarrow> Inl e),
         sb\<lparr>trace := trace sb @ attempted (outcome w) (length (trace sb)) (due_releases sb)\<rparr>))"

text \<open>Every release performed in the run returned normally.\<close>

definition releases_return :: "world \<Rightarrow> state \<Rightarrow> bool" where
  "releases_return w s \<longleftrightarrow>
     list_all (\<lambda>(i, c). is_release c \<longrightarrow> outcome w i = None) (enumerate 0 (trace s))"

text \<open>The \<open>n\<close>-th operation returns, or raises what \<^verbatim>\<open>except async_api.Error\<close> catches.\<close>

definition soft :: "world \<Rightarrow> nat \<Rightarrow> bool" where
  "soft w n = (case outcome w n of None \<Rightarrow> True | Some e \<Rightarrow> isinstance_Error e)"

text \<open>The calls of the session set-up, of the tolerant waits, and of one authored step.\<close>

definition opening_calls :: "call list" where
  "opening_calls =
     [Pw_start, Chromium_launch True launch_args, Browser_new_context,
      Context_set_default_timeout 5000, Context_new_page,
      Page_goto base_url (Some ''commit'') 10000]"

definition wait_calls :: "world \<Rightarrow> call list" where
  "wait_calls w =
     Page_wait_for_load_state ''domcontentloaded'' 3000
     # map (\<lambda>i. Frame_wait_for_load_state i ''domcontentloaded'' 3000) [0 ..< page_frames w]"

fun step_calls :: "world \<Rightarrow> step \<Rightarrow> call list" where
  "step_calls w (Navigate url) = [Page_goto url None 10000, Asyncio_sleep 3]"
| "step_calls w (LocateAndAct sel click) =
     [Context_pages_last, Page_wait_for_timeout 3000, Elem_click sel 5000]"
| "step_calls w (LocateAndAct sel (fill v)) =
     [Context_pages_last, Page_wait_for_timeout 3000, Elem_fill sel v]"
| "step_calls w (Scroll js) = [Page_evaluate js, Mouse_wheel 0 (inner_height w)]"

text \<open>
  The statements of the \<^verbatim>\<open>try\<close> body that come before the \<open>i\<close>-th authored step; with
  \<open>i = length (steps sc)\<close>, all that comes before the terminal assertion.
\<close>

definition before_step :: "scenario \<Rightarrow> nat \<Rightarrow> world \<Rightarrow> (exn + unit) \<times> state" where
  "before_step sc i w =
     block (acquire @ open_base w @ map exec_step (take i (steps sc))) w init_state"

definition acquired_state :: state where
  "acquired_state =
     \<lparr>trace = [Pw_start, Chromium_launch True launch_args, Browser_new_context],
      pw = True, browser = True, context_h = True\<rparr>"

text \<open>
  A statement is \<open>steady\<close> when all it does to the state is append calls to the trace,
  each satisfying \<open>P\<close>.
\<close>

definition steady :: "(call \<Rightarrow> bool) \<Rightarrow> prog \<Rightarrow> world \<Rightarrow> bool" where
  "steady P p w \<longleftrightarrow>
     (\<forall>s. \<exists>cs. snd (p w s) = s\<lparr>trace := trace s @ cs\<rparr> \<and> list_all P cs)"

text \<open>
  Two worlds agree from position \<open>n\<close> on; a statement is \<open>local_stmt\<close> when it never
  shortens the trace and depends on the world only from the current position on.
\<close>

definition agree_from :: "nat \<Rightarrow> world \<Rightarrow> world \<Rightarrow> bool" where
  "agree_from n w w' \<longleftrightarrow>
     (\<forall>i. n \<le> i \<longrightarrow> outcome w i = outcome w' i)
     \<and> page_frames w = page_frames w' \<and> inner_height w = inner_height w'"

definition local_stmt :: "prog \<Rightarrow> bool" where
  "local_stmt p \<longleftrightarrow>
     (\<forall>w s. length (trace s) \<le> length (trace (snd (p w s))))
     \<and> (\<forall>w w' s. agree_from (length (trace s)) w w' \<longrightarrow> p w s = p w' s)"

text \<open>A tolerant wait, and the state once the base URL has been opened.\<close>

definition tolerant :: "call \<Rightarrow> prog" where
  "tolerant c = try_except_Error_pass (perform c)"

definition opened_state :: state where
  "opened_state = \<lparr>trace = opening_calls, pw = True, browser = True, context_h = True\<rparr>"

text \<open>Example worlds: every operation returns; one more operation raises.\<close>

definition all_return :: world where
  "all_return = \<lparr>outcome = (\<lambda>n. None), page_frames = 1, inner_height = 720\<rparr>"

definition raises_at :: "nat \<Rightarrow> exn \<Rightarrow> world \<Rightarrow> world" where
  "raises_at n e w = w\<lparr>outcome := (outcome w)(n := Some e)\<rparr>"

lemmas exec_defs = run_test_def try_finally_def try_body_def before_step_def acquire_def
  open_base_def frame_wait_def terminal_assertion_def teardown_def init_state_def perform_def
  assign_def asyncio_sleep_def if_handle_def try_except_Error_pass_def
  try_except_AssertionError_raise_def all_return_def raises_at_def

section \<open>Sequences of statements\<close>

lemma block_append:
  "block (ps @ qs) w s =
     (case block ps w s of
        (Inl e, s') \<Rightarrow> (Inl e, s')
      | (Inr u, s') \<Rightarrow> block qs w s')"
  by (induction ps arbitrary: s) (auto split: prod.splits sum.splits)

lemma block_append_Inr:
  "block ps w s = (Inr u, s') \<Longrightarrow> block (ps @ qs) w s = block qs w s'"
  by (simp add: block_append)

lemma block_append_Inl:
  "block ps w s = (Inl e, s') \<Longrightarrow> block (ps @ qs) w s = (Inl e, s')"
  by (simp add: block_append)

lemma block_nested: "block (block qs # rs) w s = block (qs @ rs) w s"
  by (simp add: block_append split: prod.splits sum.splits)

lemma block_raises_at:
  assumes "block ps w s = (Inr u, s1)" and "p w s1 = (Inl e, s2)"
  shows "block (ps @ p # qs) w s = (Inl e, s2)"
  using assms by (simp add: block_append)

lemma block_snoc_Inr:
  assumes "block ps w s = (Inr u, s1)" and "p w s1 = (Inr v, s2)"
  shows "block (ps @ [p]) w s = (Inr (), s2)"
  using assms by (simp add: block_append)

section \<open>Statements only append to the trace\<close>

lemma steady_perform: "P c \<Longrightarrow> steady P (perform c) w"
  unfolding steady_def perform_def
  by (auto split: option.splits intro!: exI[where x="[c]"])

lemma steady_asyncio_sleep: "P (Asyncio_sleep d) \<Longrightarrow> steady P (asyncio_sleep d) w"
  unfolding steady_def asyncio_sleep_def
  by (auto intro!: exI[where x="[Asyncio_sleep d]"])

lemma steady_try_except_Error_pass:
  assumes "steady P p w"
  shows "steady P (try_except_Error_pass p) w"
  unfolding steady_def
proof
  fix s
  from assms obtain cs where "snd (p w s) = s\<lparr>trace := trace s @ cs\<rparr>" "list_all P cs"
    unfolding steady_def by blast
  then show "\<exists>cs. snd (try_except_Error_pass p w s) = s\<lparr>trace := trace s @ cs\<rparr> \<and> list_all P cs"
    by (cases "p w s") (auto simp: try_except_Error_pass_def split: sum.splits)
qed

lemma steady_try_except_AssertionError_raise:
  assumes "steady P p w"
  shows "steady P (try_except_AssertionError_raise p m) w"
  unfolding steady_def
proof
  fix s
  from assms obtain cs where "snd (p w s) = s\<lparr>trace := trace s @ cs\<rparr>" "list_all P cs"
    unfolding steady_def by blast
  then show "\<exists>cs. snd (try_except_AssertionError_raise p m w s) = s\<lparr>trace := trace s @ cs\<rparr>
               \<and> list_all P cs"
    by (cases "p w s") (auto simp: try_except_AssertionError_raise_def split: sum.splits)
qed

lemma steady_block:
  "(\<And>p. p \<in> set ps \<Longrightarrow> steady P p w) \<Longrightarrow> steady P (block ps) w"
proof (induction ps)
  case Nil
  show ?case unfolding steady_def by (auto intro!: exI[where x="[]"])
next
  case (Cons p ps)
  have hp: "steady P p w" using Cons.prems by simp
  have hps: "steady P (block ps) w" using Cons by simp
  show ?case
    unfolding steady_def
  proof
    fix s
    obtain r s1 where r: "p w s = (r, s1)" by (cases "p w s")
    from hp obtain cs where cs: "s1 = s\<lparr>trace := trace s @ cs\<rparr>" "list_all P cs"
      unfolding steady_def using r by (metis snd_conv)
    show "\<exists>cs. snd (block (p # ps) w s) = s\<lparr>trace := trace s @ cs\<rparr> \<and> list_all P cs"
    proof (cases r)
      case (Inl e)
      then show ?thesis using r cs by auto
    next
      case (Inr u)
      from hps obtain ds where
        ds: "snd (block ps w s1) = s1\<lparr>trace := trace s1 @ ds\<rparr>" "list_all P ds"
        unfolding steady_def by blast
      have "snd (block (p # ps) w s) = s\<lparr>trace := trace s @ (cs @ ds)\<rparr>"
        using r Inr ds cs by simp
      moreover have "list_all P (cs @ ds)" using cs ds by simp
      ultimately show ?thesis by blast
    qed
  qed
qed

text \<open>
  An authored step performs an initial part of its calls; all of them when it returns.
\<close>

lemma exec_step_trace:
  "\<exists>k. snd (exec_step st w s) = s\<lparr>trace := trace s @ take k (step_calls w st)\<rparr>
       \<and> 0 < k
       \<and> (\<forall>u. fst (exec_step st w s) = Inr u \<longrightarrow> k = length (step_calls w st))"
proof (cases st)
  case (Navigate url)
  show ?thesis
  proof (cases "outcome w (length (trace s))")
    case None
    then show ?thesis using Navigate
      by (auto simp: perform_def asyncio_sleep_def intro!: exI[where x=2])
  next
    case (Some e)
    then show ?thesis using Navigate
      by (auto simp: perform_def asyncio_sleep_def intro!: exI[where x=1])
  qed
next
  case (LocateAndAct sel a)
  let ?n = "length (trace s)"
  consider e where "outcome w ?n = Some e"
    | e where "outcome w ?n = None" "outcome w (Suc ?n) = Some e"
    | "outcome w ?n = None" "outcome w (Suc ?n) = None"
    by (cases "outcome w ?n"; cases "outcome w (Suc ?n)") auto
  then show ?thesis
  proof cases
    case 1
    then show ?thesis using LocateAndAct
      by (cases a) (auto simp: perform_def intro!: exI[where x=1])
  next
    case 2
    then show ?thesis using LocateAndAct
      by (cases a) (auto simp: perform_def intro!: exI[where x=2])
  next
    case 3
    then show ?thesis using LocateAndAct
      by (cases a; cases "outcome w (Suc (Suc ?n))")
         (auto simp: perform_def intro!: exI[where x=3])
  qed
next
  case (Scroll js)
  show ?thesis
  proof (cases "outcome w (length (trace s))")
    case None
    then show ?thesis using Scroll
      by (cases "outcome w (Suc (length (trace s)))")
         (auto simp: perform_def intro!: exI[where x=2])
  next
    case (Some e)
    then show ?thesis using Scroll
      by (auto simp: perform_def intro!: exI[where x=1])
  qed
qed

lemma exec_step_Inr:
  assumes "exec_step st w s = (Inr u, s')"
  shows "s' = s\<lparr>trace := trace s @ step_calls w st\<rparr>"
proof -
  from exec_step_trace[of st w s] obtain k where
    "snd (exec_step st w s) = s\<lparr>trace := trace s @ take k (step_calls w st)\<rparr>"
    "\<forall>u. fst (exec_step st w s) = Inr u \<longrightarrow> k = length (step_calls w st)"
    by blast
  with assms show ?thesis by simp
qed

lemma steady_exec_step:
  assumes "\<And>c. c \<in> set (step_calls w st) \<Longrightarrow> P c"
  shows "steady P (exec_step st) w"
  unfolding steady_def
proof
  fix s
  from exec_step_trace[of st w s] obtain k where
    k: "snd (exec_step st w s) = s\<lparr>trace := trace s @ take k (step_calls w st)\<rparr>"
    by blast
  have "list_all P (take k (step_calls w st))"
    using assms by (auto simp: list_all_iff dest: in_set_takeD)
  with k show "\<exists>cs. snd (exec_step st w s) = s\<lparr>trace := trace s @ cs\<rparr> \<and> list_all P cs"
    by blast
qed

lemma step_calls_plain: "c \<in> set (step_calls w st) \<Longrightarrow> \<not> is_release c \<and> \<not> is_expect c"
  by (cases "(w, st)" rule: step_calls.cases) auto

text \<open>The statements between the acquisition and the terminal assertion.\<close>

lemma steady_before_assertion:
  assumes "p \<in> set ([perform (Context_set_default_timeout 5000), perform Context_new_page]
                     @ open_base w @ map exec_step sts)"
    and "\<And>c. \<not> is_release c \<Longrightarrow> \<not> is_expect c \<Longrightarrow> P c"
  shows "steady P p w"
proof -
  from assms(1) consider
      "p = perform (Context_set_default_timeout 5000)" | "p = perform Context_new_page"
    | "p = perform (Page_goto base_url (Some ''commit'') 10000)"
    | "p = try_except_Error_pass (perform (Page_wait_for_load_state ''domcontentloaded'' 3000))"
    | "p = block (map frame_wait [0 ..< page_frames w])"
    | st where "p = exec_step st"
    unfolding open_base_def by auto
  then show ?thesis
  proof cases
    case 5
    have "steady P (block (map frame_wait [0 ..< page_frames w])) w"
      by (rule steady_block)
         (auto simp: frame_wait_def intro!: steady_try_except_Error_pass steady_perform assms(2))
    then show ?thesis using 5 by simp
  next
    case (6 st)
    then show ?thesis using step_calls_plain assms(2) by (auto intro!: steady_exec_step)
  qed (auto intro!: steady_try_except_Error_pass steady_perform assms(2))
qed

lemma steady_terminal:
  assumes "p \<in> set (terminal_assertion sc @ [asyncio_sleep 5])"
    and "\<And>c. \<not> is_release c \<Longrightarrow> P c"
  shows "steady P p w"
  using assms
  by (auto simp: terminal_assertion_def
      intro!: steady_try_except_AssertionError_raise steady_perform steady_asyncio_sleep)

section \<open>The cleanup block\<close>

lemma teardown_eq:
  "teardown w s =
     ((case release_error (outcome w) (length (trace s)) (due_releases s) of
         None \<Rightarrow> Inr ()
       | Some e \<Rightarrow> Inl e),
      s\<lparr>trace := trace s @ attempted (outcome w) (length (trace s)) (due_releases s)\<rparr>)"
  unfolding teardown_def due_releases_def if_handle_def perform_def
  by (cases "context_h s"; cases "browser s"; cases "pw s")
     (auto split: option.splits)

lemma run_test_finish: "run_test sc w = finish w (try_body sc w init_state)"
  unfolding run_test_def try_finally_def finish_def
  by (cases "try_body sc w init_state") (simp add: teardown_eq split: option.splits)

lemma due_releases_are_releases: "list_all is_release (due_releases s)"
  by (simp add: due_releases_def)

lemma attempted_prefix: "\<exists>k. attempted out n cs = take k cs"
proof (induction cs arbitrary: n)
  case Nil
  show ?case by simp
next
  case (Cons c cs)
  show ?case
  proof (cases "out n")
    case None
    from Cons.IH[of "Suc n"] obtain k where "attempted out (Suc n) cs = take k cs" by blast
    then have "attempted out n (c # cs) = take (Suc k) (c # cs)" using None by simp
    then show ?thesis by blast
  next
    case (Some e)
    then have "attempted out n (c # cs) = take 1 (c # cs)" by simp
    then show ?thesis by blast
  qed
qed

lemma attempted_complete:
  "list_all is_release cs \<Longrightarrow>
   list_all (\<lambda>(i, c). is_release c \<longrightarrow> out i = None) (enumerate n (attempted out n cs)) \<Longrightarrow>
   attempted out n cs = cs \<and> release_error out n cs = None"
proof (induction cs arbitrary: n)
  case Nil
  show ?case by simp
next
  case (Cons c cs)
  from Cons.prems have c: "is_release c" and cs: "list_all is_release cs" by simp_all
  from Cons.prems(2) c have n: "out n = None" by simp
  with Cons.prems(2) have
    "list_all (\<lambda>(i, c). is_release c \<longrightarrow> out i = None)
       (enumerate (Suc n) (attempted out (Suc n) cs))"
    by simp
  from Cons.IH[OF cs this] n show ?case by simp
qed

lemma attempted_filter:
  "list_all is_release cs \<Longrightarrow> filter is_release (attempted out n cs) = attempted out n cs"
  by (induction cs arbitrary: n) (auto split: option.splits)

lemma filter_no_release: "list_all (\<lambda>c. \<not> is_release c) cs \<Longrightarrow> filter is_release cs = []"
  by (induction cs) auto

lemma finish_returning:
  assumes "releases_return w (snd (finish w (rb, sb)))"
  shows "finish w (rb, sb) = (rb, sb\<lparr>trace := trace sb @ due_releases sb\<rparr>)"
proof -
  let ?n = "length (trace sb)"
  from assms have
    "list_all (\<lambda>(i, c). is_release c \<longrightarrow> outcome w i = None)
       (enumerate ?n (attempted (outcome w) ?n (due_releases sb)))"
    by (simp add: releases_return_def finish_def enumerate_append_eq)
  from attempted_complete[OF due_releases_are_releases this]
  show ?thesis by (simp add: finish_def)
qed

section \<open>The acquisition of the session\<close>

lemma acquire_start_raises:
  "outcome w 0 = Some e \<Longrightarrow>
   block (acquire @ X) w init_state =
     (Inl e, \<lparr>trace = [Pw_start], pw = False, browser = False, context_h = False\<rparr>)"
  by (simp add: acquire_def assign_def perform_def init_state_def)

lemma acquire_launch_raises:
  "outcome w 0 = None \<Longrightarrow> outcome w 1 = Some e \<Longrightarrow>
   block (acquire @ X) w init_state =
     (Inl e, \<lparr>trace = [Pw_start, Chromium_launch True launch_args],
              pw = True, browser = False, context_h = False\<rparr>)"
  by (simp add: acquire_def assign_def perform_def init_state_def)

lemma acquire_new_context_raises:
  "outcome w 0 = None \<Longrightarrow> outcome w 1 = None \<Longrightarrow> outcome w 2 = Some e \<Longrightarrow>
   block (acquire @ X) w init_state =
     (Inl e, \<lparr>trace = [Pw_start, Chromium_launch True launch_args, Browser_new_context],
              pw = True, browser = True, context_h = False\<rparr>)"
  by (simp add: acquire_def assign_def perform_def init_state_def numeral_2_eq_2)

lemma acquire_acquired:
  "outcome w 0 = None \<Longrightarrow> outcome w 1 = None \<Longrightarrow> outcome w 2 = None \<Longrightarrow>
   block (acquire @ X) w init_state =
     block ([perform (Context_set_default_timeout 5000), perform Context_new_page] @ X)
       w acquired_state"
  by (simp add: acquire_def assign_def perform_def init_state_def acquired_state_def
        numeral_2_eq_2)

lemma acquire_cases:
  obtains e where "outcome w 0 = Some e"
  | e where "outcome w 0 = None" "outcome w 1 = Some e"
  | e where "outcome w 0 = None" "outcome w 1 = None" "outcome w 2 = Some e"
  | "outcome w 0 = None" "outcome w 1 = None" "outcome w 2 = None"
  by (cases "outcome w 0"; cases "outcome w 1"; cases "outcome w 2") auto

lemma acquire_shape:
  assumes st: "\<And>p. p \<in> set ([perform (Context_set_default_timeout 5000),
                                perform Context_new_page] @ X) \<Longrightarrow> steady P p w"
    and P: "P Pw_start" "P (Chromium_launch True launch_args)" "P Browser_new_context"
  shows "case block (acquire @ X) w init_state of (r, s) \<Rightarrow>
           list_all P (trace s) \<and>
           (pw s \<longleftrightarrow> outcome w 0 = None) \<and>
           (browser s \<longleftrightarrow> outcome w 0 = None \<and> outcome w 1 = None) \<and>
           (context_h s \<longleftrightarrow> outcome w 0 = None \<and> outcome w 1 = None \<and> outcome w 2 = None) \<and>
           (\<forall>u. r = Inr u \<longrightarrow> pw s \<and> browser s \<and> context_h s)"
proof (cases rule: acquire_cases[of w])
  case 1
  then show ?thesis using P by (simp add: acquire_start_raises)
next
  case 2
  then show ?thesis using P by (simp add: acquire_launch_raises)
next
  case 3
  then show ?thesis using P by (simp add: acquire_new_context_raises)
next
  case 4
  let ?Y = "[perform (Context_set_default_timeout 5000), perform Context_new_page] @ X"
  have "steady P (block ?Y) w" using st by (rule steady_block)
  then obtain cs where
    cs: "snd (block ?Y w acquired_state) = acquired_state\<lparr>trace := trace acquired_state @ cs\<rparr>"
      "list_all P cs"
    unfolding steady_def by blast
  have eq: "block (acquire @ X) w init_state = block ?Y w acquired_state"
    using 4 by (rule acquire_acquired)
  show ?thesis
    using cs 4 P unfolding eq
    by (cases "block ?Y w acquired_state") (simp add: acquired_state_def)
qed

lemma try_body_shape:
  "case try_body sc w init_state of (rb, sb) \<Rightarrow>
     list_all (\<lambda>c. \<not> is_release c) (trace sb) \<and>
     (pw sb \<longleftrightarrow> outcome w 0 = None) \<and>
     (browser sb \<longleftrightarrow> outcome w 0 = None \<and> outcome w 1 = None) \<and>
     (context_h sb \<longleftrightarrow> outcome w 0 = None \<and> outcome w 1 = None \<and> outcome w 2 = None)"
proof -
  let ?X = "open_base w @ map exec_step (steps sc) @ terminal_assertion sc @ [asyncio_sleep 5]"
  have "case block (acquire @ ?X) w init_state of (r, s) \<Rightarrow>
           list_all (\<lambda>c. \<not> is_release c) (trace s) \<and>
           (pw s \<longleftrightarrow> outcome w 0 = None) \<and>
           (browser s \<longleftrightarrow> outcome w 0 = None \<and> outcome w 1 = None) \<and>
           (context_h s \<longleftrightarrow> outcome w 0 = None \<and> outcome w 1 = None \<and> outcome w 2 = None) \<and>
           (\<forall>u. r = Inr u \<longrightarrow> pw s \<and> browser s \<and> context_h s)"
  proof (rule acquire_shape)
    fix p
    assume "p \<in> set ([perform (Context_set_default_timeout 5000), perform Context_new_page] @ ?X)"
    then consider
      "p \<in> set ([perform (Context_set_default_timeout 5000), perform Context_new_page]
                 @ open_base w @ map exec_step (steps sc))"
      | "p \<in> set (terminal_assertion sc @ [asyncio_sleep 5])"
      by auto
    then show "steady (\<lambda>c. \<not> is_release c) p w"
    proof cases
      case 1 then show ?thesis by (rule steady_before_assertion) simp
    next
      case 2 then show ?thesis by (rule steady_terminal) simp
    qed
  qed simp_all
  then show ?thesis
    by (cases "block (acquire @ ?X) w init_state") (auto simp: try_body_def)
qed

lemma before_step_shape:
  "case before_step sc i w of (r, s) \<Rightarrow>
     list_all (\<lambda>c. \<not> is_release c \<and> \<not> is_expect c) (trace s) \<and>
     (\<forall>u. r = Inr u \<longrightarrow> pw s \<and> browser s \<and> context_h s)"
proof -
  let ?X = "open_base w @ map exec_step (take i (steps sc))"
  have "case block (acquire @ ?X) w init_state of (r, s) \<Rightarrow>
           list_all (\<lambda>c. \<not> is_release c \<and> \<not> is_expect c) (trace s) \<and>
           (pw s \<longleftrightarrow> outcome w 0 = None) \<and>
           (browser s \<longleftrightarrow> outcome w 0 = None \<and> outcome w 1 = None) \<and>
           (context_h s \<longleftrightarrow> outcome w 0 = None \<and> outcome w 1 = None \<and> outcome w 2 = None) \<and>
           (\<forall>u. r = Inr u \<longrightarrow> pw s \<and> browser s \<and> context_h s)"
  proof (rule acquire_shape)
    fix p
    assume "p \<in> set ([perform (Context_set_default_timeout 5000), perform Context_new_page] @ ?X)"
    then show "steady (\<lambda>c. \<not> is_release c \<and> \<not> is_expect c) p w"
      by (rule steady_before_assertion) simp
  qed simp_all
  then show ?thesis
    by (cases "block (acquire @ ?X) w init_state") (auto simp: before_step_def)
qed

lemma before_step_handles:
  assumes "before_step sc i w = (Inr u, s)"
  shows "pw s \<and> browser s \<and> context_h s \<and> due_releases s = [Context_close, Browser_close, Pw_stop]
         \<and> list_all (\<lambda>c. \<not> is_release c \<and> \<not> is_expect c) (trace s)"
  using before_step_shape[where sc=sc and i=i and w=w] assms by (simp add: due_releases_def)

section \<open>The opening of the session and the tolerant waits\<close>

lemma block_split_Inr:
  assumes "block (ps @ qs) w s = (Inr u, s')"
  obtains s1 where "block ps w s = (Inr (), s1)" "block qs w s1 = (Inr u, s')"
  using assms by (auto simp: block_append split: prod.splits sum.splits)

lemma block_map_Inr:
  assumes "\<And>c s u s'. c \<in> set cs \<Longrightarrow> f c w s = (Inr u, s') \<Longrightarrow> s' = s\<lparr>trace := trace s @ g c\<rparr>"
    and "block (map f cs) w s = (Inr u, s')"
  shows "s' = s\<lparr>trace := trace s @ concat (map g cs)\<rparr>"
  using assms
proof (induction cs arbitrary: s)
  case Nil
  then show ?case by simp
next
  case (Cons c cs)
  from Cons.prems(2) obtain v s1 where 1: "f c w s = (Inr v, s1)" and 2: "block (map f cs) w s1 = (Inr u, s')"
    by (auto split: prod.splits sum.splits)
  have s1: "s1 = s\<lparr>trace := trace s @ g c\<rparr>" using Cons.prems(1)[OF _ 1] by simp
  have "s' = s1\<lparr>trace := trace s1 @ concat (map g cs)\<rparr>"
    using Cons.IH[OF _ 2] Cons.prems(1) by simp
  with s1 show ?case by simp
qed

lemma perform_Inr: "perform c w s = (Inr u, s') \<Longrightarrow> s' = s\<lparr>trace := trace s @ [c]\<rparr>"
  by (auto simp: perform_def split: option.splits)

lemma perform_None:
  "outcome w (length (trace s)) = None \<Longrightarrow> perform c w s = (Inr (), s\<lparr>trace := trace s @ [c]\<rparr>)"
  by (simp add: perform_def)

lemma perform_Some:
  "outcome w (length (trace s)) = Some e \<Longrightarrow> perform c w s = (Inl e, s\<lparr>trace := trace s @ [c]\<rparr>)"
  by (simp add: perform_def)

lemma tolerant_Inr: "tolerant c w s = (Inr u, s') \<Longrightarrow> s' = s\<lparr>trace := trace s @ [c]\<rparr>"
  by (auto simp: tolerant_def try_except_Error_pass_def perform_def split: option.splits if_splits)

lemma tolerant_soft:
  "soft w (length (trace s)) \<Longrightarrow> tolerant c w s = (Inr (), s\<lparr>trace := trace s @ [c]\<rparr>)"
  by (auto simp: tolerant_def try_except_Error_pass_def perform_def soft_def split: option.splits)

lemma tolerant_raises:
  "outcome w (length (trace s)) = Some e \<Longrightarrow> \<not> isinstance_Error e \<Longrightarrow>
   tolerant c w s = (Inl e, s\<lparr>trace := trace s @ [c]\<rparr>)"
  by (simp add: tolerant_def try_except_Error_pass_def perform_def)

lemma block_cons_cong:
  "(\<And>s'. block ps w s' = block qs w s') \<Longrightarrow> block (p # ps) w s = block (p # qs) w s"
  by (simp split: prod.splits sum.splits)

lemma open_base_flat:
  "block (open_base w @ Y) w s =
   block (perform (Page_goto base_url (Some ''commit'') 10000)
          # map tolerant (wait_calls w) @ Y) w s"
proof -
  let ?fs = "map (\<lambda>i. Frame_wait_for_load_state i ''domcontentloaded'' 3000)
               [0 ..< page_frames w]"
  have fw: "map frame_wait [0 ..< page_frames w] = map tolerant ?fs"
    by (simp add: frame_wait_def tolerant_def)
  have "block (perform (Page_goto base_url (Some ''commit'') 10000)
               # tolerant (Page_wait_for_load_state ''domcontentloaded'' 3000)
               # block (map tolerant ?fs) # Y) w s
        = block (perform (Page_goto base_url (Some ''commit'') 10000)
               # tolerant (Page_wait_for_load_state ''domcontentloaded'' 3000)
               # (map tolerant ?fs @ Y)) w s"
    by (rule block_cons_cong, rule block_cons_cong, rule block_nested)
  then show ?thesis
    by (simp add: open_base_def wait_calls_def fw tolerant_def)
qed

text \<open>The tolerant waits up to the \<open>m\<close>-th all end normally when their outcomes are soft.\<close>

lemma tolerant_waits_reach:
  assumes "\<And>j. j < length cs \<Longrightarrow> soft w (length (trace s) + j)"
  shows "block (map tolerant cs) w s = (Inr (), s\<lparr>trace := trace s @ cs\<rparr>)"
  using assms
proof (induction cs arbitrary: s)
  case Nil
  show ?case by simp
next
  case (Cons c cs)
  have 0: "soft w (length (trace s))" using Cons.prems[of 0] by simp
  let ?s1 = "s\<lparr>trace := trace s @ [c]\<rparr>"
  have "block (map tolerant cs) w ?s1 = (Inr (), ?s1\<lparr>trace := trace ?s1 @ cs\<rparr>)"
  proof (rule Cons.IH)
    fix j assume "j < length cs"
    then show "soft w (length (trace ?s1) + j)" using Cons.prems[of "Suc j"] by simp
  qed
  then show ?case using tolerant_soft[OF 0, of c] by simp
qed

lemma opening_returns:
  assumes "\<And>i. i < 6 \<Longrightarrow> outcome w i = None"
  shows "block (acquire @ open_base w @ Y) w init_state
         = block (map tolerant (wait_calls w) @ Y) w opened_state"
proof -
  have o: "outcome w 0 = None" "outcome w 1 = None" "outcome w 2 = None"
    "outcome w 3 = None" "outcome w 4 = None" "outcome w 5 = None"
    using assms by simp_all
  have o': "outcome w (Suc (Suc (Suc 0))) = None"
    "outcome w (Suc (Suc (Suc (Suc 0)))) = None"
    "outcome w (Suc (Suc (Suc (Suc (Suc 0))))) = None"
    using o by (simp_all add: eval_nat_numeral)
  have "block (acquire @ open_base w @ Y) w init_state
      = block ([perform (Context_set_default_timeout 5000), perform Context_new_page]
               @ open_base w @ Y) w acquired_state"
    using o by (simp add: acquire_acquired)
  also have "\<dots> = block (open_base w @ Y) w
      (acquired_state\<lparr>trace := trace acquired_state
         @ [Context_set_default_timeout 5000, Context_new_page]\<rparr>)"
    using o' by (simp add: perform_def acquired_state_def)
  also have "\<dots> = block (map tolerant (wait_calls w) @ Y) w opened_state"
    unfolding open_base_flat using o'
    by (simp add: perform_def acquired_state_def opened_state_def opening_calls_def)
  finally show ?thesis .
qed

lemma opening_raises:
  assumes "i < 6" and "\<And>j. j < i \<Longrightarrow> outcome w j = None" and "outcome w i = Some e"
  shows "block (acquire @ open_base w @ Y) w init_state
         = (Inl e, \<lparr>trace = take (Suc i) opening_calls,
                    pw = (0 < i), browser = (1 < i), context_h = (2 < i)\<rparr>)"
proof -
  from assms(1) consider "i = 0" | "i = 1" | "i = 2" | "i = 3" | "i = 4" | "i = 5" by linarith
  then show ?thesis
  proof cases
    case 1
    then show ?thesis using assms(3) by (simp add: acquire_start_raises opening_calls_def)
  next
    case 2
    then show ?thesis using assms(2)[of 0] assms(3)
      by (simp add: acquire_launch_raises opening_calls_def)
  next
    case 3
    then show ?thesis using assms(2)[of 0] assms(2)[of 1] assms(3)
      by (simp add: acquire_new_context_raises opening_calls_def)
  next
    case 4
    then have o: "outcome w 0 = None" "outcome w 1 = None" "outcome w 2 = None"
      "outcome w 3 = Some e"
      using assms(2)[of 0] assms(2)[of 1] assms(2)[of 2] assms(3) by simp_all
    have o': "outcome w (Suc (Suc (Suc 0))) = Some e"
      using o by (simp add: eval_nat_numeral)
    show ?thesis unfolding acquire_acquired[OF o(1,2,3)] using o' 4
      by (simp add: perform_def acquired_state_def opening_calls_def)
  next
    case 5
    then have o: "outcome w 0 = None" "outcome w 1 = None" "outcome w 2 = None"
      "outcome w 3 = None" "outcome w 4 = Some e"
      using assms(2)[of 0] assms(2)[of 1] assms(2)[of 2] assms(2)[of 3] assms(3) by simp_all
    have o': "outcome w (Suc (Suc (Suc 0))) = None"
      "outcome w (Suc (Suc (Suc (Suc 0)))) = Some e"
      using o by (simp_all add: eval_nat_numeral)
    show ?thesis unfolding acquire_acquired[OF o(1,2,3)] using o' 5
      by (simp add: perform_def acquired_state_def opening_calls_def)
  next
    case 6
    then have o: "outcome w 0 = None" "outcome w 1 = None" "outcome w 2 = None"
      "outcome w 3 = None" "outcome w 4 = None" "outcome w 5 = Some e"
      using assms(2)[of 0] assms(2)[of 1] assms(2)[of 2] assms(2)[of 3] assms(2)[of 4] assms(3)
      by simp_all
    have o': "outcome w (Suc (Suc (Suc 0))) = None"
      "outcome w (Suc (Suc (Suc (Suc 0)))) = None"
      "outcome w (Suc (Suc (Suc (Suc (Suc 0))))) = Some e"
      using o by (simp_all add: eval_nat_numeral)
    have "block (acquire @ open_base w @ Y) w init_state
      = block (open_base w @ Y) w
          (acquired_state\<lparr>trace := trace acquired_state
             @ [Context_set_default_timeout 5000, Context_new_page]\<rparr>)"
      unfolding acquire_acquired[OF o(1,2,3)] using o'
      by (simp add: perform_def acquired_state_def)
    also have "\<dots> = (Inl e, \<lparr>trace = take (Suc i) opening_calls,
                    pw = (0 < i), browser = (1 < i), context_h = (2 < i)\<rparr>)"
      unfolding open_base_flat using o' 6
      by (simp add: perform_def acquired_state_def opening_calls_def)
    finally show ?thesis .
  qed
qed

lemma opening_Inr:
  assumes "block (acquire @ open_base w @ Y) w init_state = (Inr u, s)"
  shows "i < 6 \<Longrightarrow> outcome w i = None"
proof (rule ccontr)
  assume i: "i < 6" and "outcome w i \<noteq> None"
  then have ex: "\<exists>i. i < 6 \<and> outcome w i \<noteq> None" by blast
  define m where "m = (LEAST i. i < 6 \<and> outcome w i \<noteq> None)"
  have m: "m < 6 \<and> outcome w m \<noteq> None" unfolding m_def using ex by (rule LeastI_ex)
  have least: "\<And>j. j < m \<Longrightarrow> outcome w j = None"
  proof -
    fix j assume jm: "j < m"
    show "outcome w j = None"
    proof (rule ccontr)
      assume "outcome w j \<noteq> None"
      with jm m have "j < 6 \<and> outcome w j \<noteq> None" by simp
      then have "m \<le> j" unfolding m_def by (rule Least_le)
      with jm show False by simp
    qed
  qed
  from m obtain e where "outcome w m = Some e" by auto
  from opening_raises[OF _ least this, of Y] m assms show False by simp
qed

lemma concat_singletons: "concat (map (\<lambda>c. [c]) cs) = cs"
  by (induction cs) simp_all

lemma before_step_Inr:
  assumes "before_step sc i w = (Inr u, s1)"
  shows "s1 = opened_state\<lparr>trace := opening_calls @ wait_calls w
                 @ concat (map (step_calls w) (take i (steps sc)))\<rparr>"
    and "\<And>j. j < 6 \<Longrightarrow> outcome w j = None"
proof -
  let ?Y = "map exec_step (take i (steps sc))"
  have b: "block (acquire @ open_base w @ ?Y) w init_state = (Inr u, s1)"
    using assms by (simp add: before_step_def)
  show o: "\<And>j. j < 6 \<Longrightarrow> outcome w j = None" using opening_Inr[OF b] .
  have "block (map tolerant (wait_calls w) @ ?Y) w opened_state = (Inr u, s1)"
    using b opening_returns[of w ?Y] o by simp
  then obtain sa where
    a: "block (map tolerant (wait_calls w)) w opened_state = (Inr (), sa)"
    and c: "block ?Y w sa = (Inr u, s1)"
    by (rule block_split_Inr)
  have "sa = opened_state\<lparr>trace := trace opened_state @ concat (map (\<lambda>c. [c]) (wait_calls w))\<rparr>"
    using _ a by (rule block_map_Inr) (rule tolerant_Inr)
  then have sa: "sa = opened_state\<lparr>trace := opening_calls @ wait_calls w\<rparr>"
    by (simp add: concat_singletons opened_state_def)
  have "s1 = sa\<lparr>trace := trace sa @ concat (map (step_calls w) (take i (steps sc)))\<rparr>"
    using _ c by (rule block_map_Inr) (rule exec_step_Inr)
  with sa show "s1 = opened_state\<lparr>trace := opening_calls @ wait_calls w
                 @ concat (map (step_calls w) (take i (steps sc)))\<rparr>"
    by simp
qed

lemma terminal_cases:
  "block (terminal_assertion sc @ [asyncio_sleep 5]) w s =
     (case outcome w (length (trace s)) of
        Some e \<Rightarrow> (Inl e, s\<lparr>trace := trace s @ [Context_pages_last]\<rparr>)
      | None \<Rightarrow>
          (case outcome w (Suc (length (trace s))) of
             Some e \<Rightarrow>
               (if isinstance_AssertionError e
                then Inl (AssertionError (failure_message sc)) else Inl e,
                s\<lparr>trace := trace s @ [Context_pages_last,
                     Expect_to_be_visible (expected_text sc) (assert_timeout sc)]\<rparr>)
           | None \<Rightarrow>
               (Inr (),
                s\<lparr>trace := trace s @ [Context_pages_last,
                     Expect_to_be_visible (expected_text sc) (assert_timeout sc),
                     Asyncio_sleep 5]\<rparr>)))"
  by (simp add: terminal_assertion_def perform_def try_except_AssertionError_raise_def
        asyncio_sleep_def split: option.splits)

lemma try_body_via_before:
  "try_body sc w init_state =
     (case before_step sc (length (steps sc)) w of
        (Inl e, s1) \<Rightarrow> (Inl e, s1)
      | (Inr u, s1) \<Rightarrow> block (terminal_assertion sc @ [asyncio_sleep 5]) w s1)"
proof -
  have "acquire @ open_base w @ map exec_step (steps sc) @ terminal_assertion sc
          @ [asyncio_sleep 5]
        = (acquire @ open_base w @ map exec_step (steps sc))
          @ (terminal_assertion sc @ [asyncio_sleep 5])"
    by simp
  then show ?thesis
    unfolding try_body_def before_step_def by (simp only: block_append take_all order_refl)
qed

lemma try_body_via_step:
  assumes "i < length (steps sc)"
  shows "try_body sc w init_state =
     (case before_step sc i w of
        (Inl e, s1) \<Rightarrow> (Inl e, s1)
      | (Inr u, s1) \<Rightarrow>
          block (exec_step (steps sc ! i) # map exec_step (drop (Suc i) (steps sc))
                 @ terminal_assertion sc @ [asyncio_sleep 5]) w s1)"
proof -
  have "steps sc = take i (steps sc) @ steps sc ! i # drop (Suc i) (steps sc)"
    using assms by (rule id_take_nth_drop)
  then have "map exec_step (steps sc)
      = map exec_step (take i (steps sc))
        @ exec_step (steps sc ! i) # map exec_step (drop (Suc i) (steps sc))"
    by (metis list.simps(9) map_append)
  then have "acquire @ open_base w @ map exec_step (steps sc) @ terminal_assertion sc
          @ [asyncio_sleep 5]
        = (acquire @ open_base w @ map exec_step (take i (steps sc)))
          @ (exec_step (steps sc ! i) # map exec_step (drop (Suc i) (steps sc))
             @ terminal_assertion sc @ [asyncio_sleep 5])"
    by simp
  then show ?thesis
    unfolding try_body_def before_step_def by (simp only: block_append)
qed

lemma run_test_of_body:
  assumes "try_body sc w init_state = (rb, sb)"
    and "due_releases sb = [Context_close, Browser_close, Pw_stop]"
  shows "trace (snd (run_test sc w))
           = trace sb @ attempted (outcome w) (length (trace sb))
                          [Context_close, Browser_close, Pw_stop]"
    and "fst (run_test sc w)
           = (case release_error (outcome w) (length (trace sb))
                    [Context_close, Browser_close, Pw_stop] of
                None \<Rightarrow> rb | Some e \<Rightarrow> Inl e)"
    and "releases_return w (snd (run_test sc w)) \<Longrightarrow>
         run_test sc w = (rb, sb\<lparr>trace := trace sb @ [Context_close, Browser_close, Pw_stop]\<rparr>)"
proof -
  have rt: "run_test sc w = finish w (rb, sb)" using assms(1) by (simp add: run_test_finish)
  show "trace (snd (run_test sc w))
           = trace sb @ attempted (outcome w) (length (trace sb))
                          [Context_close, Browser_close, Pw_stop]"
    using rt assms(2) by (simp add: finish_def)
  show "fst (run_test sc w)
           = (case release_error (outcome w) (length (trace sb))
                    [Context_close, Browser_close, Pw_stop] of
                None \<Rightarrow> rb | Some e \<Rightarrow> Inl e)"
    using rt assms(2) by (simp add: finish_def)
  show "releases_return w (snd (run_test sc w)) \<Longrightarrow>
         run_test sc w = (rb, sb\<lparr>trace := trace sb @ [Context_close, Browser_close, Pw_stop]\<rparr>)"
    using finish_returning[of w rb sb] rt assms(2) by simp
qed

lemma attempted_subset: "set (attempted out n cs) \<subseteq> set cs"
proof -
  obtain k where "attempted out n cs = take k cs" using attempted_prefix by blast
  then show ?thesis by (simp add: set_take_subset)
qed

lemma attempted_no_expect:
  "filter is_expect (attempted out n [Context_close, Browser_close, Pw_stop]) = []"
  by (auto split: option.splits)

lemma no_expect_filter:
  "list_all (\<lambda>c. \<not> is_release c \<and> \<not> is_expect c) cs \<Longrightarrow> filter is_expect cs = []"
  by (induction cs) auto

lemma release_not_expect: "is_release c \<Longrightarrow> \<not> is_expect c"
  by (cases c) simp_all

lemma attempted_due_no_expect:
  "filter is_expect (attempted out n (due_releases s)) = []"
proof -
  have "\<not> is_expect c" if "c \<in> set (attempted out n (due_releases s))" for c
  proof -
    from that have "c \<in> set (due_releases s)" using attempted_subset by blast
    then have "is_release c" using due_releases_are_releases[of s] by (simp add: list_all_iff)
    then show ?thesis by (rule release_not_expect)
  qed
  then show ?thesis by (simp add: filter_empty_conv)
qed


lemma length_opening_calls: "length opening_calls = 6"
  by (simp add: opening_calls_def)

lemma length_wait_calls: "length (wait_calls w) = Suc (page_frames w)"
  by (simp add: wait_calls_def)

lemma opened_due: "due_releases (opened_state\<lparr>trace := cs\<rparr>) = [Context_close, Browser_close, Pw_stop]"
  by (simp add: due_releases_def opened_state_def)

text \<open>Reaching the tolerant wait at position \<open>k\<close>.\<close>

lemma reach_wait:
  assumes six: "\<And>i. i < 6 \<Longrightarrow> outcome w i = None"
    and k: "6 \<le> k" "k < 7 + page_frames w"
    and sft: "\<And>i. 6 \<le> i \<Longrightarrow> i < k \<Longrightarrow> soft w i"
  shows "block (acquire @ open_base w @ Y) w init_state
         = block (tolerant (wait_calls w ! (k - 6))
                  # map tolerant (drop (k - 5) (wait_calls w)) @ Y) w
             (opened_state\<lparr>trace := opening_calls @ take (k - 6) (wait_calls w)\<rparr>)"
proof -
  let ?ws = "wait_calls w"
  let ?m = "k - 6"
  have m: "?m < length ?ws" using k by (simp add: length_wait_calls)
  have split: "?ws = take ?m ?ws @ ?ws ! ?m # drop (Suc ?m) ?ws"
    using m by (rule id_take_nth_drop)
  have "map tolerant ?ws
      = map tolerant (take ?m ?ws) @ tolerant (?ws ! ?m) # map tolerant (drop (Suc ?m) ?ws)"
    by (metis split list.simps(9) map_append)
  then have eq: "map tolerant ?ws @ Y
      = map tolerant (take ?m ?ws)
        @ (tolerant (?ws ! ?m) # map tolerant (drop (Suc ?m) ?ws) @ Y)"
    by simp
  have "block (map tolerant (take ?m ?ws)) w opened_state
        = (Inr (), opened_state\<lparr>trace := trace opened_state @ take ?m ?ws\<rparr>)"
  proof (rule tolerant_waits_reach)
    fix j assume "j < length (take ?m ?ws)"
    then have "j < ?m" by simp
    then have "6 \<le> 6 + j" "6 + j < k" using k by simp_all
    then have "soft w (6 + j)" by (rule sft)
    then show "soft w (length (trace opened_state) + j)"
      by (simp add: opened_state_def length_opening_calls)
  qed
  then have "block (map tolerant ?ws @ Y) w opened_state
      = block (tolerant (?ws ! ?m) # map tolerant (drop (Suc ?m) ?ws) @ Y) w
          (opened_state\<lparr>trace := trace opened_state @ take ?m ?ws\<rparr>)"
    unfolding eq by (rule block_append_Inr)
  moreover have "Suc ?m = k - 5" using k by simp
  ultimately show ?thesis
    using opening_returns[of w Y] six by (simp add: opened_state_def)
qed


section \<open>Statements depend on the world only from the current position on\<close>

lemma agree_from_mono: "agree_from n w w' \<Longrightarrow> n \<le> m \<Longrightarrow> agree_from m w w'"
  by (simp add: agree_from_def)

lemma local_stmtI:
  assumes "\<And>w s. length (trace s) \<le> length (trace (snd (p w s)))"
    and "\<And>w w' s. agree_from (length (trace s)) w w' \<Longrightarrow> p w s = p w' s"
  shows "local_stmt p"
  using assms unfolding local_stmt_def by blast

lemma local_stmt_grows: "local_stmt p \<Longrightarrow> length (trace s) \<le> length (trace (snd (p w s)))"
  unfolding local_stmt_def by blast

lemma local_stmt_agree:
  "local_stmt p \<Longrightarrow> agree_from (length (trace s)) w w' \<Longrightarrow> p w s = p w' s"
  unfolding local_stmt_def by blast

lemma local_perform: "local_stmt (perform c)"
proof (rule local_stmtI)
  fix w s show "length (trace s) \<le> length (trace (snd (perform c w s)))"
    by (simp add: perform_def split: option.splits)
next
  fix w w' :: world and s :: state assume "agree_from (length (trace s)) w w'"
  then have "outcome w (length (trace s)) = outcome w' (length (trace s))"
    by (simp add: agree_from_def)
  then show "perform c w s = perform c w' s" by (simp add: perform_def)
qed

lemma local_asyncio_sleep: "local_stmt (asyncio_sleep d)"
  by (rule local_stmtI) (simp_all add: asyncio_sleep_def)

lemma local_try_except_Error_pass:
  assumes "local_stmt p"
  shows "local_stmt (try_except_Error_pass p)"
proof (rule local_stmtI)
  fix w s
  show "length (trace s) \<le> length (trace (snd (try_except_Error_pass p w s)))"
    using local_stmt_grows[OF assms, of s w]
    by (cases "p w s") (auto simp: try_except_Error_pass_def split: sum.splits)
next
  fix w w' :: world and s :: state assume "agree_from (length (trace s)) w w'"
  then have "p w s = p w' s" using assms by (rule local_stmt_agree[rotated])
  then show "try_except_Error_pass p w s = try_except_Error_pass p w' s"
    by (simp add: try_except_Error_pass_def)
qed

lemma local_tolerant: "local_stmt (tolerant c)"
  unfolding tolerant_def by (rule local_try_except_Error_pass) (rule local_perform)

lemma local_try_except_AssertionError_raise:
  assumes "local_stmt p"
  shows "local_stmt (try_except_AssertionError_raise p m)"
proof (rule local_stmtI)
  fix w s
  show "length (trace s) \<le> length (trace (snd (try_except_AssertionError_raise p m w s)))"
    using local_stmt_grows[OF assms, of s w]
    by (cases "p w s") (auto simp: try_except_AssertionError_raise_def split: sum.splits)
next
  fix w w' :: world and s :: state assume "agree_from (length (trace s)) w w'"
  then have "p w s = p w' s" using assms by (rule local_stmt_agree[rotated])
  then show "try_except_AssertionError_raise p m w s = try_except_AssertionError_raise p m w' s"
    by (simp add: try_except_AssertionError_raise_def)
qed

lemma local_if_handle:
  assumes "local_stmt p"
  shows "local_stmt (if_handle h p)"
proof (rule local_stmtI)
  fix w s
  show "length (trace s) \<le> length (trace (snd (if_handle h p w s)))"
    using local_stmt_grows[OF assms, of s w] by (simp add: if_handle_def)
next
  fix w w' :: world and s :: state assume "agree_from (length (trace s)) w w'"
  then have "p w s = p w' s" using assms by (rule local_stmt_agree[rotated])
  then show "if_handle h p w s = if_handle h p w' s" by (simp add: if_handle_def)
qed

lemma block_grows:
  "(\<And>p. p \<in> set ps \<Longrightarrow> local_stmt p) \<Longrightarrow>
   length (trace s) \<le> length (trace (snd (block ps w s)))"
proof (induction ps arbitrary: s)
  case Nil
  show ?case by simp
next
  case (Cons p ps)
  obtain r s1 where r: "p w s = (r, s1)" by (cases "p w s")
  have g: "length (trace s) \<le> length (trace s1)"
    using local_stmt_grows[of p s w] Cons.prems r by simp
  show ?case
  proof (cases r)
    case (Inl e)
    then show ?thesis using r g by simp
  next
    case (Inr u)
    have "length (trace s1) \<le> length (trace (snd (block ps w s1)))"
      using Cons.IH Cons.prems by simp
    then show ?thesis using r Inr g by simp
  qed
qed

lemma block_agree:
  "(\<And>p. p \<in> set ps \<Longrightarrow> local_stmt p) \<Longrightarrow> agree_from (length (trace s)) w w' \<Longrightarrow>
   block ps w s = block ps w' s"
proof (induction ps arbitrary: s)
  case Nil
  show ?case by simp
next
  case (Cons p ps)
  have lp: "local_stmt p" using Cons.prems(1) by simp
  have eq: "p w s = p w' s" using lp Cons.prems(2) by (rule local_stmt_agree)
  obtain r s1 where r: "p w s = (r, s1)" by (cases "p w s")
  have g: "length (trace s) \<le> length (trace s1)"
    using local_stmt_grows[OF lp, of s w] r by simp
  show ?case
  proof (cases r)
    case (Inl e)
    then show ?thesis using r eq by simp
  next
    case (Inr u)
    have "agree_from (length (trace s1)) w w'"
      using Cons.prems(2) g by (rule agree_from_mono)
    then have "block ps w s1 = block ps w' s1"
      using Cons.IH Cons.prems(1) by simp
    then show ?thesis using r eq Inr by simp
  qed
qed

lemma local_block: "(\<And>p. p \<in> set ps \<Longrightarrow> local_stmt p) \<Longrightarrow> local_stmt (block ps)"
  by (rule local_stmtI) (simp_all add: block_grows block_agree)

lemma local_exec_step: "local_stmt (exec_step st)"
proof (rule local_stmtI)
  fix w s
  from exec_step_trace[of st w s] obtain k where
    "snd (exec_step st w s) = s\<lparr>trace := trace s @ take k (step_calls w st)\<rparr>" by blast
  then show "length (trace s) \<le> length (trace (snd (exec_step st w s)))" by simp
next
  fix w w' :: world and s :: state assume a: "agree_from (length (trace s)) w w'"
  have ih: "inner_height w = inner_height w'" using a by (simp add: agree_from_def)
  have bl: "\<And>ps. (\<And>p. p \<in> set ps \<Longrightarrow> local_stmt p) \<Longrightarrow> block ps w s = block ps w' s"
    using a by (rule block_agree[rotated])
  show "exec_step st w s = exec_step st w' s"
  proof (cases st)
    case (Navigate url)
    have "block [perform (Page_goto url None 10000), asyncio_sleep 3] w s
        = block [perform (Page_goto url None 10000), asyncio_sleep 3] w' s"
      by (rule bl) (auto intro: local_perform local_asyncio_sleep)
    then show ?thesis using Navigate by simp
  next
    case (LocateAndAct sel a)
    show ?thesis
    proof (cases a)
      case click
      have "block [perform Context_pages_last, perform (Page_wait_for_timeout 3000),
                   perform (Elem_click sel 5000)] w s
          = block [perform Context_pages_last, perform (Page_wait_for_timeout 3000),
                   perform (Elem_click sel 5000)] w' s"
        by (rule bl) (auto intro: local_perform)
      then show ?thesis using LocateAndAct click by simp
    next
      case (fill v)
      have "block [perform Context_pages_last, perform (Page_wait_for_timeout 3000),
                   perform (Elem_fill sel v)] w s
          = block [perform Context_pages_last, perform (Page_wait_for_timeout 3000),
                   perform (Elem_fill sel v)] w' s"
        by (rule bl) (auto intro: local_perform)
      then show ?thesis using LocateAndAct fill by simp
    qed
  next
    case (Scroll js)
    have "block [perform (Page_evaluate js), perform (Mouse_wheel 0 (inner_height w))] w s
        = block [perform (Page_evaluate js), perform (Mouse_wheel 0 (inner_height w))] w' s"
      by (rule bl) (auto intro: local_perform)
    then show ?thesis using Scroll ih by simp
  qed
qed

lemma local_teardown: "local_stmt teardown"
  unfolding teardown_def
  by (rule local_block) (auto intro: local_if_handle local_perform)

lemma local_after_waits:
  assumes "p \<in> set (map tolerant cs @ map exec_step sts @ terminal_assertion sc
                     @ [asyncio_sleep 5])"
  shows "local_stmt p"
  using assms
  by (auto simp: terminal_assertion_def
      intro: local_tolerant local_exec_step local_perform local_asyncio_sleep
        local_try_except_AssertionError_raise)

text \<open>Every statement after the waits performs at least one call.\<close>

lemma progress_after_waits:
  assumes "p \<in> set (map tolerant cs @ map exec_step sts @ terminal_assertion sc
                     @ [asyncio_sleep 5])"
  shows "length (trace s) < length (trace (snd (p w s)))"
proof -
  from assms consider c where "p = tolerant c" | st where "p = exec_step st"
    | "p = perform Context_pages_last"
    | "p = try_except_AssertionError_raise
             (perform (Expect_to_be_visible (expected_text sc) (assert_timeout sc)))
             (failure_message sc)"
    | "p = asyncio_sleep 5"
    by (auto simp: terminal_assertion_def)
  then show ?thesis
  proof cases
    case (1 c)
    then show ?thesis
      by (auto simp: tolerant_def try_except_Error_pass_def perform_def split: option.splits)
  next
    case (2 st)
    from exec_step_trace[of st w s] obtain k where
      "snd (exec_step st w s) = s\<lparr>trace := trace s @ take k (step_calls w st)\<rparr>" "0 < k"
      by blast
    moreover have "step_calls w st \<noteq> []"
      by (cases "(w, st)" rule: step_calls.cases) simp_all
    ultimately show ?thesis using 2 by (cases "step_calls w st") auto
  next
    case 3
    then show ?thesis by (simp add: perform_def split: option.splits)
  next
    case 4
    then show ?thesis
      by (auto simp: try_except_AssertionError_raise_def perform_def split: option.splits)
  next
    case 5
    then show ?thesis by (simp add: asyncio_sleep_def)
  qed
qed

lemma steady_after_waits:
  assumes "p \<in> set (map tolerant cs @ map exec_step sts @ terminal_assertion sc
                     @ [asyncio_sleep 5])"
  shows "steady (\<lambda>c. True) p w"
proof -
  from assms consider c where "p = tolerant c" | st where "p = exec_step st"
    | "p \<in> set (terminal_assertion sc @ [asyncio_sleep 5])"
    by auto
  then show ?thesis
  proof cases
    case (1 c)
    then show ?thesis
      unfolding tolerant_def by (auto intro!: steady_try_except_Error_pass steady_perform)
  next
    case (2 st)
    then show ?thesis by (simp add: steady_exec_step)
  next
    case 3
    then show ?thesis by (rule steady_terminal) simp
  qed
qed

lemma block_after_waits_extends:
  "\<exists>ds. snd (block (map tolerant cs @ map exec_step sts @ terminal_assertion sc
                     @ [asyncio_sleep 5]) w s) = s\<lparr>trace := trace s @ ds\<rparr>"
proof -
  have "steady (\<lambda>c. True) (block (map tolerant cs @ map exec_step sts @ terminal_assertion sc
                     @ [asyncio_sleep 5])) w"
    by (rule steady_block) (rule steady_after_waits)
  then show ?thesis unfolding steady_def by blast
qed

lemma block_progress:
  assumes "ps \<noteq> []"
    and "\<And>p. p \<in> set ps \<Longrightarrow> local_stmt p"
    and "\<And>p s. p \<in> set ps \<Longrightarrow> length (trace s) < length (trace (snd (p w s)))"
  shows "length (trace s) < length (trace (snd (block ps w s)))"
proof (cases ps)
  case Nil
  with assms(1) show ?thesis by simp
next
  case (Cons p qs)
  obtain r s1 where r: "p w s = (r, s1)" by (cases "p w s")
  have g: "length (trace s) < length (trace s1)"
    using assms(3)[of p s] r Cons by simp
  show ?thesis
  proof (cases r)
    case (Inl e)
    then show ?thesis using r g Cons by simp
  next
    case (Inr u)
    have "length (trace s1) \<le> length (trace (snd (block qs w s1)))"
      using assms(2) Cons by (intro block_grows) simp
    then show ?thesis using r Inr g Cons by simp
  qed
qed


lemma run_trace_of_body:
  assumes "try_body sc w init_state = (rb, sb)"
  shows "\<exists>rs. trace (snd (run_test sc w)) = trace sb @ rs"
  using assms by (simp add: run_test_finish finish_def)



section \<open>Claims about the cleanup\<close>

text \<open>
  C1 (as amended). For every scenario and every world, whichever way the \<^verbatim>\<open>try\<close> body
  ends (returning, or raising from any statement), the cleanup block runs once, after
  the body: the body itself performs no release; the cleanup performs the releases owed
  for the handles held, in the order context, browser, driver, each behind the
  truthiness test of its handle, and stops after the first release that raises, whose
  exception then replaces the outcome of the body. When every release performed returns
  normally, each handle held is released exactly once and \<^verbatim>\<open>run_test\<close> ends as the body
  did.
\<close>

theorem cleanup_runs_once_in_order:
  "case try_body sc w init_state of (rb, sb) \<Rightarrow>
     list_all (\<lambda>c. \<not> is_release c) (trace sb) \<and>
     snd (run_test sc w) =
       sb\<lparr>trace := trace sb @ attempted (outcome w) (length (trace sb)) (due_releases sb)\<rparr> \<and>
     fst (run_test sc w) =
       (case release_error (outcome w) (length (trace sb)) (due_releases sb) of
          None \<Rightarrow> rb
        | Some e \<Rightarrow> Inl e) \<and>
     (releases_return w (snd (run_test sc w)) \<longrightarrow>
        run_test sc w = (rb, sb\<lparr>trace := trace sb @ due_releases sb\<rparr>))"
proof (cases "try_body sc w init_state")
  case (Pair rb sb)
  have nr: "list_all (\<lambda>c. \<not> is_release c) (trace sb)"
    using try_body_shape[where sc=sc and w=w] Pair by simp
  have rt: "run_test sc w = finish w (rb, sb)" by (simp add: run_test_finish Pair)
  have "releases_return w (snd (run_test sc w)) \<longrightarrow>
        run_test sc w = (rb, sb\<lparr>trace := trace sb @ due_releases sb\<rparr>)"
    using finish_returning[of w rb sb] rt by simp
  with nr rt Pair show ?thesis by (simp add: finish_def)
qed

text \<open>
  Witness for C1: script TC018 in the world where every operation returns. The three
  releases return, the run ends normally and the releases performed are exactly
  context, browser, driver.
\<close>

theorem cleanup_runs_once_in_order_witness:
  "releases_return all_return (snd (run_test TC018 all_return))
   \<and> fst (run_test TC018 all_return) = Inr ()
   \<and> filter is_release (trace (snd (run_test TC018 all_return)))
       = [Context_close, Browser_close, Pw_stop]"
  using cleanup_runs_once_in_order[where sc=TC018 and w=all_return]
  by (simp add: exec_defs TC018_def releases_return_def due_releases_def)

text \<open>
  Counterexample to C1 as stated (each release independently guarded against the failure
  of another): script TC005 with one frame, every operation returning except
  \<^verbatim>\<open>context.close()\<close>, the operation at position 36, which raises. The browser and the
  driver handles are held, yet neither \<^verbatim>\<open>browser.close()\<close> nor \<^verbatim>\<open>pw.stop()\<close> is performed,
  and the run, whose assertion had passed, ends with the exception of the release.
\<close>

theorem close_raises_skips_later_releases:
  "fst (run_test TC005 (raises_at 36 (PlaywrightError ''Target closed'') all_return))
     = Inl (PlaywrightError ''Target closed'')
   \<and> trace (snd (run_test TC005 (raises_at 36 (PlaywrightError ''Target closed'') all_return))) ! 36
     = Context_close
   \<and> filter is_release
       (trace (snd (run_test TC005 (raises_at 36 (PlaywrightError ''Target closed'') all_return))))
     = [Context_close]
   \<and> browser (snd (run_test TC005 (raises_at 36 (PlaywrightError ''Target closed'') all_return)))
   \<and> pw (snd (run_test TC005 (raises_at 36 (PlaywrightError ''Target closed'') all_return)))"
  by (simp add: exec_defs TC005_def)

text \<open>
  C10 (as amended). The three handles start as \<^verbatim>\<open>None\<close>. At the end of every run a handle is
  held exactly when its acquisition returned (and those before it did); the releases
  performed are an initial part of the releases owed for the handles held, in the order
  context, browser, driver, so no release is performed on a handle that was not
  acquired; when every release performed returns normally they are exactly the releases
  owed. When the browser launch raises, the run performs the start of the driver, the
  launch, and the stop of the driver, and nothing else.
\<close>

theorem releases_only_acquired:
  "case run_test sc w of (r, s) \<Rightarrow>
     (\<not> pw init_state \<and> \<not> browser init_state \<and> \<not> context_h init_state) \<and>
     (pw s \<longleftrightarrow> outcome w 0 = None) \<and>
     (browser s \<longleftrightarrow> outcome w 0 = None \<and> outcome w 1 = None) \<and>
     (context_h s \<longleftrightarrow> outcome w 0 = None \<and> outcome w 1 = None \<and> outcome w 2 = None) \<and>
     (\<exists>k. filter is_release (trace s) = take k (due_releases s)) \<and>
     (releases_return w s \<longrightarrow> filter is_release (trace s) = due_releases s) \<and>
     (outcome w 0 = None \<and> outcome w 1 \<noteq> None \<longrightarrow>
        trace s = [Pw_start, Chromium_launch True launch_args, Pw_stop])"
proof (cases "try_body sc w init_state")
  case (Pair rb sb)
  let ?a = "attempted (outcome w) (length (trace sb)) (due_releases sb)"
  have nr: "filter is_release (trace sb) = []"
    using try_body_shape[where sc=sc and w=w] Pair by (simp add: filter_no_release)
  have rt: "run_test sc w = finish w (rb, sb)" by (simp add: run_test_finish Pair)
  obtain r s where rs: "run_test sc w = (r, s)" by (cases "run_test sc w")
  have fs: "finish w (rb, sb) = (r, s)" using rt rs by simp
  have s: "s = sb\<lparr>trace := trace sb @ ?a\<rparr>" using fs by (simp add: finish_def)
  have due: "due_releases s = due_releases sb" using s by (simp add: due_releases_def)
  have h: "(pw s \<longleftrightarrow> outcome w 0 = None) \<and>
     (browser s \<longleftrightarrow> outcome w 0 = None \<and> outcome w 1 = None) \<and>
     (context_h s \<longleftrightarrow> outcome w 0 = None \<and> outcome w 1 = None \<and> outcome w 2 = None)"
    using try_body_shape[where sc=sc and w=w] Pair s by simp
  have f: "filter is_release (trace s) = ?a"
    using s nr by (simp add: attempted_filter due_releases_are_releases)
  obtain k where k: "?a = take k (due_releases sb)" using attempted_prefix by blast
  have p: "\<exists>k. filter is_release (trace s) = take k (due_releases s)"
    using f k due by auto
  have q: "releases_return w s \<longrightarrow> filter is_release (trace s) = due_releases s"
  proof
    assume "releases_return w s"
    then have "releases_return w (snd (finish w (rb, sb)))" by (simp add: fs)
    from finish_returning[OF this] fs have "trace s = trace sb @ due_releases sb" by auto
    then show "filter is_release (trace s) = due_releases s"
      using nr due due_releases_are_releases[of sb]
      by (simp add: list_all_iff filter_id_conv)
  qed
  have l: "outcome w 0 = None \<and> outcome w 1 \<noteq> None \<longrightarrow>
        trace s = [Pw_start, Chromium_launch True launch_args, Pw_stop]"
  proof
    assume a: "outcome w 0 = None \<and> outcome w 1 \<noteq> None"
    then obtain e where "outcome w 1 = Some e" by auto
    with a have "try_body sc w init_state =
        (Inl e, \<lparr>trace = [Pw_start, Chromium_launch True launch_args],
                 pw = True, browser = False, context_h = False\<rparr>)"
      by (simp add: try_body_def acquire_launch_raises)
    with Pair s show "trace s = [Pw_start, Chromium_launch True launch_args, Pw_stop]"
      by (auto simp: due_releases_def split: option.splits)
  qed
  show ?thesis using rs h p q l by (simp add: init_state_def)
qed

text \<open>
  Witness for C10: script TC004 in the world where the browser launch (position 1)
  raises. Only the driver was acquired, and only the driver is released.
\<close>

theorem releases_only_acquired_witness:
  "outcome (raises_at 1 (PlaywrightError ''Executable does not exist'') all_return) 0 = None
   \<and> outcome (raises_at 1 (PlaywrightError ''Executable does not exist'') all_return) 1 \<noteq> None
   \<and> releases_return (raises_at 1 (PlaywrightError ''Executable does not exist'') all_return)
        (snd (run_test TC004
               (raises_at 1 (PlaywrightError ''Executable does not exist'') all_return)))
   \<and> trace (snd (run_test TC004
               (raises_at 1 (PlaywrightError ''Executable does not exist'') all_return)))
      = [Pw_start, Chromium_launch True launch_args, Pw_stop]
   \<and> filter is_release
        (trace (snd (run_test TC004
               (raises_at 1 (PlaywrightError ''Executable does not exist'') all_return))))
      = [Pw_stop]"
  using releases_only_acquired[where sc=TC004
      and w="raises_at 1 (PlaywrightError ''Executable does not exist'') all_return"]
  by (simp add: exec_defs TC004_def releases_return_def due_releases_def)

text \<open>
  Counterexample to C10 as stated (the resources already acquired are still released):
  script TC015 in the world where the creation of the context (position 2) raises and
  then \<^verbatim>\<open>browser.close()\<close> (position 3) raises too. The driver was acquired and is never
  stopped.
\<close>

theorem acquired_driver_not_released:
  "pw (snd (run_test TC015
       (raises_at 3 (PlaywrightError ''Connection closed'')
         (raises_at 2 (PlaywrightError ''Connection closed'') all_return))))
   \<and> trace (snd (run_test TC015
       (raises_at 3 (PlaywrightError ''Connection closed'')
         (raises_at 2 (PlaywrightError ''Connection closed'') all_return))))
     = [Pw_start, Chromium_launch True launch_args, Browser_new_context, Browser_close]"
  by (simp add: exec_defs TC015_def)

section \<open>Claims about the tolerant waits\<close>

text \<open>
  C2. The tolerant waits are the operations at the positions \<open>6 \<le> k < 7 + page_frames w\<close> of a
  run whose first six operations (the acquisition of the session and the navigation to the
  base URL) returned: position 6 is the wait on the main page, position \<open>7 + j\<close> the wait
  on frame \<open>j\<close>. When the waits before position \<open>k\<close> did not abort the run and the wait at
  \<open>k\<close> raises a timeout or another driver error, the whole run, its outcome and every
  operation it performs, is the run of the world in which that wait returned normally:
  the error is caught and ignored. The operation at position \<open>k\<close> is that wait, and the body
  of \<^verbatim>\<open>run_test\<close> goes on after it.
\<close>

theorem soft_wait_failure_ignored:
  assumes "\<forall>i<6. outcome w i = None"
    and "6 \<le> k" and "k < 7 + page_frames w"
    and "\<forall>i. 6 \<le> i \<and> i < k \<longrightarrow> soft w i"
    and "outcome w k = Some e" and "isinstance_Error e"
  shows "run_test sc w = run_test sc (w\<lparr>outcome := (outcome w)(k := None)\<rparr>)
       \<and> trace (snd (run_test sc w)) ! k = wait_calls w ! (k - 6)
       \<and> Suc k < length (trace (snd (try_body sc w init_state)))"
proof -
  let ?w' = "w\<lparr>outcome := (outcome w)(k := None)\<rparr>"
  let ?ws = "wait_calls w"
  let ?Y = "map exec_step (steps sc) @ terminal_assertion sc @ [asyncio_sleep 5]"
  let ?R = "map tolerant (drop (k - 5) ?ws) @ ?Y"
  let ?c = "?ws ! (k - 6)"
  let ?sk = "opened_state\<lparr>trace := opening_calls @ take (k - 6) ?ws\<rparr>"
  let ?s' = "?sk\<lparr>trace := trace ?sk @ [?c]\<rparr>"
  have m: "k - 6 < length ?ws" using assms(2,3) by (simp add: length_wait_calls)
  have len: "length (trace ?sk) = k"
    using assms(2) m by (simp add: length_opening_calls)
  have len': "length (trace ?s') = Suc k" using len by simp
  have ws': "wait_calls ?w' = ?ws" "open_base ?w' = open_base w"
    by (simp_all add: wait_calls_def open_base_def)
  have sw: "soft w k" using assms(5,6) by (simp add: soft_def)
  have sw': "soft ?w' k" by (simp add: soft_def)
  have "try_body sc w init_state = block (tolerant ?c # ?R) w ?sk"
    unfolding try_body_def using assms(1,2,3,4) by (intro reach_wait) simp_all
  moreover have "tolerant ?c w ?sk = (Inr (), ?s')"
    using sw len by (intro tolerant_soft) simp
  ultimately have tb: "try_body sc w init_state = block ?R w ?s'" by simp
  have "block (acquire @ open_base ?w' @ ?Y) ?w' init_state
      = block (tolerant (wait_calls ?w' ! (k - 6))
                  # map tolerant (drop (k - 5) (wait_calls ?w')) @ ?Y) ?w'
             (opened_state\<lparr>trace := opening_calls @ take (k - 6) (wait_calls ?w')\<rparr>)"
  proof (rule reach_wait)
    fix i :: nat assume "i < 6"
    then show "outcome ?w' i = None" using assms(1,2) by simp
  next
    show "6 \<le> k" by (rule assms(2))
    show "k < 7 + page_frames ?w'" using assms(3) by simp
  next
    fix i assume "6 \<le> i" "i < k"
    then show "soft ?w' i" using assms(4) by (simp add: soft_def)
  qed
  then have "try_body sc ?w' init_state = block (tolerant ?c # ?R) ?w' ?sk"
    unfolding try_body_def ws' .
  moreover have "tolerant ?c ?w' ?sk = (Inr (), ?s')"
    using sw' len by (intro tolerant_soft) simp
  ultimately have tb': "try_body sc ?w' init_state = block ?R ?w' ?s'" by simp
  have ag: "agree_from (Suc k) w ?w'" by (simp add: agree_from_def)
  have loc: "\<And>p. p \<in> set ?R \<Longrightarrow> local_stmt p" by (rule local_after_waits)
  have eq: "block ?R w ?s' = block ?R ?w' ?s'"
    using loc ag unfolding len'[symmetric] by (rule block_agree)
  obtain rb sb where rb: "block ?R w ?s' = (rb, sb)" by (cases "block ?R w ?s'")
  have "length (trace ?s') \<le> length (trace (snd (block ?R w ?s')))"
    using loc by (rule block_grows)
  then have ge: "Suc k \<le> length (trace sb)" using rb len' by simp
  have "agree_from (length (trace sb)) w ?w'" using ag ge by (rule agree_from_mono)
  then have td: "teardown w sb = teardown ?w' sb"
    using local_teardown by (rule local_stmt_agree[rotated])
  have run_eq: "run_test sc w = run_test sc ?w'"
    unfolding run_test_def try_finally_def tb tb' eq[symmetric] rb using td by simp
  from block_after_waits_extends[of "drop (k - 5) ?ws" "steps sc" sc w ?s'] rb
  obtain ds where sb: "sb = ?s'\<lparr>trace := trace ?s' @ ds\<rparr>" by auto
  have "run_test sc w = finish w (rb, sb)" using tb rb by (simp add: run_test_finish)
  then have "trace (snd (run_test sc w))
      = (opening_calls @ take (k - 6) ?ws) @ ?c # ds
        @ attempted (outcome w) (length (trace sb)) (due_releases sb)"
    using sb by (simp add: finish_def)
  moreover have "length (opening_calls @ take (k - 6) ?ws) = k" using len by simp
  ultimately have nth: "trace (snd (run_test sc w)) ! k = ?c"
    by (metis nth_append_length)
  have "length (trace ?s') < length (trace (snd (block ?R w ?s')))"
  proof (rule block_progress)
    show "?R \<noteq> []" by (simp add: terminal_assertion_def)
    show "\<And>p. p \<in> set ?R \<Longrightarrow> local_stmt p" by (rule loc)
    show "\<And>p s. p \<in> set ?R \<Longrightarrow> length (trace s) < length (trace (snd (p w s)))"
      by (rule progress_after_waits)
  qed
  then have pr: "Suc k < length (trace (snd (try_body sc w init_state)))"
    using tb len' by simp
  show ?thesis
    apply (intro conjI)
      apply (rule run_eq)
     apply (rule nth)
    apply (rule pr)
    done
qed

text \<open>
  Witness for C2: script TC008 with one frame; the wait on the frame (position 7) raises
  a timeout error.
\<close>

theorem soft_wait_failure_ignored_witness:
  "list_all
     (\<lambda>i. outcome (raises_at 7 (PlaywrightTimeoutError ''Timeout 3000ms exceeded.'') all_return) i
            = None) [0 ..< 6]
   \<and> soft (raises_at 7 (PlaywrightTimeoutError ''Timeout 3000ms exceeded.'') all_return) 6
   \<and> outcome (raises_at 7 (PlaywrightTimeoutError ''Timeout 3000ms exceeded.'') all_return) 7
       = Some (PlaywrightTimeoutError ''Timeout 3000ms exceeded.'')
   \<and> isinstance_Error (PlaywrightTimeoutError ''Timeout 3000ms exceeded.'')
   \<and> run_test TC008 (raises_at 7 (PlaywrightTimeoutError ''Timeout 3000ms exceeded.'') all_return)
       = run_test TC008
           ((raises_at 7 (PlaywrightTimeoutError ''Timeout 3000ms exceeded.'') all_return)
              \<lparr>outcome :=
                 (outcome (raises_at 7 (PlaywrightTimeoutError ''Timeout 3000ms exceeded.'')
                    all_return))(7 := None)\<rparr>)
   \<and> trace (snd (run_test TC008
         (raises_at 7 (PlaywrightTimeoutError ''Timeout 3000ms exceeded.'') all_return))) ! 7
       = Frame_wait_for_load_state 0 ''domcontentloaded'' 3000"
proof -
  let ?e = "PlaywrightTimeoutError ''Timeout 3000ms exceeded.''"
  let ?W = "raises_at 7 ?e all_return"
  have h1: "\<forall>i<6. outcome ?W i = None" by (simp add: raises_at_def all_return_def)
  have h2: "(6::nat) \<le> 7" by simp
  have h3: "7 < 7 + page_frames ?W" by (simp add: raises_at_def all_return_def)
  have h4: "\<forall>i. 6 \<le> i \<and> i < 7 \<longrightarrow> soft ?W i"
    by (simp add: soft_def raises_at_def all_return_def)
  have h5: "outcome ?W 7 = Some ?e" by (simp add: raises_at_def)
  have h6: "isinstance_Error ?e" by simp
  have g1: "list_all (\<lambda>i. outcome ?W i = None) [0 ..< 6]"
    by (simp add: raises_at_def all_return_def list_all_iff)
  have g4: "soft ?W 6" by (simp add: soft_def raises_at_def all_return_def)
  have w: "wait_calls ?W ! (7 - 6) = Frame_wait_for_load_state 0 ''domcontentloaded'' 3000"
    by (simp add: wait_calls_def raises_at_def all_return_def)
  from soft_wait_failure_ignored[OF h1 h2 h3 h4 h5 h6, of TC008]
  have c1: "run_test TC008 ?W = run_test TC008 (?W\<lparr>outcome := (outcome ?W)(7 := None)\<rparr>)"
    and c2: "trace (snd (run_test TC008 ?W)) ! 7 = wait_calls ?W ! (7 - 6)"
    by blast+
  show ?thesis
    apply (intro conjI)
         apply (rule g1)
        apply (rule g4)
       apply (rule h5)
      apply (rule h6)
     apply (rule c1)
    apply (rule c2[unfolded w])
    done
qed

text \<open>
  C9. When a tolerant wait (position \<open>k\<close> as in C2) raises an exception that is not a
  driver error, the exception is not caught: the \<^verbatim>\<open>try\<close> body ends with it, the wait being
  its last operation, so no later step runs; \<^verbatim>\<open>run_test\<close> raises, and the cleanup block runs
  right after the wait, with the three handles held.
\<close>

theorem wait_other_exception_aborts:
  assumes "\<forall>i<6. outcome w i = None"
    and "6 \<le> k" and "k < 7 + page_frames w"
    and "\<forall>i. 6 \<le> i \<and> i < k \<longrightarrow> soft w i"
    and "outcome w k = Some e" and "\<not> isinstance_Error e"
  shows "try_body sc w init_state
           = (Inl e, opened_state\<lparr>trace := opening_calls @ take (k - 5) (wait_calls w)\<rparr>)
       \<and> (\<exists>e'. fst (run_test sc w) = Inl e')
       \<and> trace (snd (run_test sc w))
           = opening_calls @ take (k - 5) (wait_calls w)
             @ attempted (outcome w) (Suc k) [Context_close, Browser_close, Pw_stop]
       \<and> (releases_return w (snd (run_test sc w)) \<longrightarrow>
            run_test sc w
              = (Inl e, opened_state\<lparr>trace := opening_calls @ take (k - 5) (wait_calls w)
                                        @ [Context_close, Browser_close, Pw_stop]\<rparr>))"
proof -
  let ?ws = "wait_calls w"
  let ?Y = "map exec_step (steps sc) @ terminal_assertion sc @ [asyncio_sleep 5]"
  let ?s = "opened_state\<lparr>trace := opening_calls @ take (k - 6) ?ws\<rparr>"
  let ?sb = "opened_state\<lparr>trace := opening_calls @ take (k - 5) ?ws\<rparr>"
  have m: "k - 6 < length ?ws" using assms(2,3) by (simp add: length_wait_calls)
  have len: "length (trace ?s) = k"
    using assms(2) m by (simp add: length_opening_calls)
  have "try_body sc w init_state
      = block (tolerant (?ws ! (k - 6)) # map tolerant (drop (k - 5) ?ws) @ ?Y) w ?s"
    unfolding try_body_def using assms(1,2,3,4) by (intro reach_wait) simp_all
  also have "\<dots> = (Inl e, ?s\<lparr>trace := trace ?s @ [?ws ! (k - 6)]\<rparr>)"
    using tolerant_raises[of w ?s e "?ws ! (k - 6)"] assms(5,6) len by simp
  also have "?s\<lparr>trace := trace ?s @ [?ws ! (k - 6)]\<rparr> = ?sb"
  proof -
    have "take (Suc (k - 6)) ?ws = take (k - 6) ?ws @ [?ws ! (k - 6)]"
      using m by (rule take_Suc_conv_app_nth)
    moreover have "Suc (k - 6) = k - 5" using assms(2) by simp
    ultimately show ?thesis by simp
  qed
  finally have tb: "try_body sc w init_state = (Inl e, ?sb)" .
  have lb: "length (trace ?sb) = Suc k"
    using assms(2,3) by (simp add: length_opening_calls length_wait_calls)
  note rt = run_test_of_body[OF tb opened_due]
  have r2: "\<exists>e'. fst (run_test sc w) = Inl e'"
    unfolding rt(2) by (simp split: option.splits)
  have r1: "trace (snd (run_test sc w))
           = opening_calls @ take (k - 5) (wait_calls w)
             @ attempted (outcome w) (Suc k) [Context_close, Browser_close, Pw_stop]"
    unfolding rt(1) lb by simp
  have r3: "releases_return w (snd (run_test sc w)) \<longrightarrow>
            run_test sc w
              = (Inl e, opened_state\<lparr>trace := opening_calls @ take (k - 5) (wait_calls w)
                                        @ [Context_close, Browser_close, Pw_stop]\<rparr>)"
  proof
    assume "releases_return w (snd (run_test sc w))"
    from rt(3)[OF this] show "run_test sc w
              = (Inl e, opened_state\<lparr>trace := opening_calls @ take (k - 5) (wait_calls w)
                                        @ [Context_close, Browser_close, Pw_stop]\<rparr>)"
      by simp
  qed
  show ?thesis
    apply (intro conjI)
       apply (rule tb)
      apply (rule r2)
     apply (rule r1)
    apply (rule r3)
    done
qed

text \<open>
  Witness for C9: script TC009 with one frame; the wait on the main page returns and the
  wait on the frame (position 7) raises an exception that is not a driver error.
\<close>

theorem wait_other_exception_aborts_witness:
  "list_all (\<lambda>i. outcome (raises_at 7 (OtherException ''RuntimeError'') all_return) i = None)
     [0 ..< 6]
   \<and> soft (raises_at 7 (OtherException ''RuntimeError'') all_return) 6
   \<and> outcome (raises_at 7 (OtherException ''RuntimeError'') all_return) 7
       = Some (OtherException ''RuntimeError'')
   \<and> \<not> isinstance_Error (OtherException ''RuntimeError'')
   \<and> fst (try_body TC009 (raises_at 7 (OtherException ''RuntimeError'') all_return) init_state)
       = Inl (OtherException ''RuntimeError'')
   \<and> trace (snd (run_test TC009 (raises_at 7 (OtherException ''RuntimeError'') all_return)))
       = opening_calls @ [Page_wait_for_load_state ''domcontentloaded'' 3000,
                          Frame_wait_for_load_state 0 ''domcontentloaded'' 3000,
                          Context_close, Browser_close, Pw_stop]"
proof -
  let ?e = "OtherException ''RuntimeError''"
  let ?W = "raises_at 7 ?e all_return"
  have h1: "\<forall>i<6. outcome ?W i = None" by (simp add: raises_at_def all_return_def)
  have g1: "list_all (\<lambda>i. outcome ?W i = None) [0 ..< 6]"
    by (simp add: raises_at_def all_return_def list_all_iff)
  have h2: "(6::nat) \<le> 7" by simp
  have h3: "7 < 7 + page_frames ?W" by (simp add: raises_at_def all_return_def)
  have s6: "soft ?W 6" by (simp add: soft_def raises_at_def all_return_def)
  have h4: "\<forall>i. 6 \<le> i \<and> i < 7 \<longrightarrow> soft ?W i"
    by (simp add: soft_def raises_at_def all_return_def)
  have h5: "outcome ?W 7 = Some ?e" by (simp add: raises_at_def)
  have h6: "\<not> isinstance_Error ?e" by simp
  from wait_other_exception_aborts[OF h1 h2 h3 h4 h5 h6, of TC009]
  have c1: "try_body TC009 ?W init_state
           = (Inl ?e, opened_state\<lparr>trace := opening_calls @ take (7 - 5) (wait_calls ?W)\<rparr>)"
    and c2: "trace (snd (run_test TC009 ?W))
           = opening_calls @ take (7 - 5) (wait_calls ?W)
             @ attempted (outcome ?W) (Suc 7) [Context_close, Browser_close, Pw_stop]"
    by blast+
  have a: "attempted (outcome ?W) (Suc 7) [Context_close, Browser_close, Pw_stop]
      = [Context_close, Browser_close, Pw_stop]"
    by (simp add: raises_at_def all_return_def)
  have t: "take (7 - 5) (wait_calls ?W)
      = [Page_wait_for_load_state ''domcontentloaded'' 3000,
         Frame_wait_for_load_state 0 ''domcontentloaded'' 3000]"
    by (simp add: wait_calls_def raises_at_def all_return_def)
  have c1': "fst (try_body TC009 ?W init_state) = Inl ?e" using c1 by simp
  have c2': "trace (snd (run_test TC009 ?W))
       = opening_calls @ [Page_wait_for_load_state ''domcontentloaded'' 3000,
                          Frame_wait_for_load_state 0 ''domcontentloaded'' 3000,
                          Context_close, Browser_close, Pw_stop]"
    using c2 unfolding a t by simp
  show ?thesis
    apply (intro conjI)
         apply (rule g1)
        apply (rule s6)
       apply (rule h5)
      apply (rule h6)
     apply (rule c1')
    apply (rule c2')
    done
qed

section \<open>Claims about fatal steps and navigation\<close>

text \<open>
  C3 (as amended). When all that precedes the \<open>i\<close>-th authored step has completed and that
  step raises \<open>e\<close>, the \<^verbatim>\<open>try\<close> body ends at once with \<open>e\<close>: the state is the one the step
  left, its last operation the one that raised, so no later step runs and the terminal
  assertion is never performed. The cleanup block then runs with the three handles held.
  When each release returns normally, the three releases are performed and \<^verbatim>\<open>run_test\<close>
  raises \<open>e\<close>; a release that raises ends the cleanup instead (see C1).
\<close>

theorem step_failure_aborts:
  assumes "i < length (steps sc)"
    and "before_step sc i w = (Inr (), s1)"
    and "exec_step (steps sc ! i) w s1 = (Inl e, s2)"
  shows "try_body sc w init_state = (Inl e, s2)
       \<and> (\<exists>k. 0 < k \<and> s2 = s1\<lparr>trace := trace s1 @ take k (step_calls w (steps sc ! i))\<rparr>)
       \<and> filter is_expect (trace (snd (run_test sc w))) = []
       \<and> trace (snd (run_test sc w))
           = trace s2 @ attempted (outcome w) (length (trace s2))
                          [Context_close, Browser_close, Pw_stop]
       \<and> (releases_return w (snd (run_test sc w)) \<longrightarrow>
            run_test sc w
              = (Inl e, s2\<lparr>trace := trace s2 @ [Context_close, Browser_close, Pw_stop]\<rparr>))"
proof -
  have tb: "try_body sc w init_state = (Inl e, s2)"
    using try_body_via_step[OF assms(1), of w] assms(2,3) by simp
  from exec_step_trace[of "steps sc ! i" w s1] assms(3) obtain k where
    k: "0 < k" "s2 = s1\<lparr>trace := trace s1 @ take k (step_calls w (steps sc ! i))\<rparr>"
    by auto
  from before_step_handles[OF assms(2)] have
    h1: "due_releases s1 = [Context_close, Browser_close, Pw_stop]"
    and n1: "list_all (\<lambda>c. \<not> is_release c \<and> \<not> is_expect c) (trace s1)"
    by simp_all
  have due: "due_releases s2 = [Context_close, Browser_close, Pw_stop]"
    using h1 k(2) by (simp add: due_releases_def)
  have "list_all (\<lambda>c. \<not> is_release c \<and> \<not> is_expect c) (take k (step_calls w (steps sc ! i)))"
    using step_calls_plain by (auto simp: list_all_iff dest: in_set_takeD)
  with n1 k(2) have n2: "filter is_expect (trace s2) = []"
    by (simp add: no_expect_filter)
  note rt = run_test_of_body[OF tb due]
  have "filter is_expect (trace (snd (run_test sc w))) = []"
    unfolding rt(1) using n2 attempted_no_expect by simp
  then have nx: "filter is_expect (trace (snd (run_test sc w))) = []" .
  have ex: "\<exists>k. 0 < k \<and> s2 = s1\<lparr>trace := trace s1 @ take k (step_calls w (steps sc ! i))\<rparr>"
    using k by blast
  have r3: "releases_return w (snd (run_test sc w)) \<longrightarrow>
            run_test sc w
              = (Inl e, s2\<lparr>trace := trace s2 @ [Context_close, Browser_close, Pw_stop]\<rparr>)"
    using rt(3) by (rule impI)
  show ?thesis
    apply (intro conjI)
        apply (rule tb)
       apply (rule ex)
      apply (rule nx)
     apply (rule rt(1))
    apply (rule r3)
    done
qed

text \<open>
  Witness for C3: script TC004 with one frame; its first authored step, the navigation to
  \<^verbatim>\<open>/login\<close> (position 8), raises a timeout error and the three releases return.
\<close>

theorem step_failure_aborts_witness:
  "0 < length (steps TC004)
   \<and> before_step TC004 0
         (raises_at 8 (PlaywrightTimeoutError ''Timeout 10000ms exceeded.'') all_return)
       = (Inr (), opened_state\<lparr>trace := opening_calls
             @ [Page_wait_for_load_state ''domcontentloaded'' 3000,
                Frame_wait_for_load_state 0 ''domcontentloaded'' 3000]\<rparr>)
   \<and> releases_return
         (raises_at 8 (PlaywrightTimeoutError ''Timeout 10000ms exceeded.'') all_return)
         (snd (run_test TC004
            (raises_at 8 (PlaywrightTimeoutError ''Timeout 10000ms exceeded.'') all_return)))
   \<and> run_test TC004
         (raises_at 8 (PlaywrightTimeoutError ''Timeout 10000ms exceeded.'') all_return)
       = (Inl (PlaywrightTimeoutError ''Timeout 10000ms exceeded.''),
          opened_state\<lparr>trace := opening_calls
             @ [Page_wait_for_load_state ''domcontentloaded'' 3000,
                Frame_wait_for_load_state 0 ''domcontentloaded'' 3000,
                Page_goto ''http://localhost:8080/login'' None 10000,
                Context_close, Browser_close, Pw_stop]\<rparr>)"
proof -
  let ?e = "PlaywrightTimeoutError ''Timeout 10000ms exceeded.''"
  let ?W = "raises_at 8 ?e all_return"
  let ?s1 = "opened_state\<lparr>trace := opening_calls
             @ [Page_wait_for_load_state ''domcontentloaded'' 3000,
                Frame_wait_for_load_state 0 ''domcontentloaded'' 3000]\<rparr>"
  let ?s2 = "?s1\<lparr>trace := trace ?s1 @ [Page_goto ''http://localhost:8080/login'' None 10000]\<rparr>"
  have h1: "0 < length (steps TC004)" by (simp add: TC004_def)
  have h2: "before_step TC004 0 ?W = (Inr (), ?s1)"
    by (simp add: exec_defs opened_state_def opening_calls_def)
  have h3: "exec_step (steps TC004 ! 0) ?W ?s1 = (Inl ?e, ?s2)"
    by (simp add: TC004_def perform_def raises_at_def all_return_def opened_state_def
          opening_calls_def)
  have rr: "releases_return ?W (snd (run_test TC004 ?W))"
    by (simp add: exec_defs TC004_def releases_return_def)
  from step_failure_aborts[OF h1 h2 h3] rr
  have "run_test TC004 ?W
      = (Inl ?e, ?s2\<lparr>trace := trace ?s2 @ [Context_close, Browser_close, Pw_stop]\<rparr>)"
    by blast
  then have c: "run_test TC004 ?W
       = (Inl ?e,
          opened_state\<lparr>trace := opening_calls
             @ [Page_wait_for_load_state ''domcontentloaded'' 3000,
                Frame_wait_for_load_state 0 ''domcontentloaded'' 3000,
                Page_goto ''http://localhost:8080/login'' None 10000,
                Context_close, Browser_close, Pw_stop]\<rparr>)"
    by simp
  show ?thesis
    apply (intro conjI)
       apply (rule h1)
      apply (rule h2)
     apply (rule rr)
    apply (rule c)
    done
qed

text \<open>
  Counterexample to C3 as stated (the error propagates and the full teardown still runs):
  script TC004 with one frame; the click of its fourth authored step (position 16) raises
  a timeout error and then \<^verbatim>\<open>context.close()\<close> (position 17) raises. The run ends with the
  exception of the release, not with the error of the step, and neither the browser nor
  the driver is released.
\<close>

theorem step_error_replaced_by_close_error:
  "fst (before_step TC004 3
         (raises_at 17 (PlaywrightError ''Target closed'')
           (raises_at 16 (PlaywrightTimeoutError ''Timeout 5000ms exceeded.'') all_return)))
     = Inr ()
   \<and> fst (exec_step (steps TC004 ! 3)
         (raises_at 17 (PlaywrightError ''Target closed'')
           (raises_at 16 (PlaywrightTimeoutError ''Timeout 5000ms exceeded.'') all_return))
         (snd (before_step TC004 3
           (raises_at 17 (PlaywrightError ''Target closed'')
             (raises_at 16 (PlaywrightTimeoutError ''Timeout 5000ms exceeded.'') all_return)))))
     = Inl (PlaywrightTimeoutError ''Timeout 5000ms exceeded.'')
   \<and> fst (run_test TC004
         (raises_at 17 (PlaywrightError ''Target closed'')
           (raises_at 16 (PlaywrightTimeoutError ''Timeout 5000ms exceeded.'') all_return)))
     = Inl (PlaywrightError ''Target closed'')
   \<and> filter is_release (trace (snd (run_test TC004
         (raises_at 17 (PlaywrightError ''Target closed'')
           (raises_at 16 (PlaywrightTimeoutError ''Timeout 5000ms exceeded.'') all_return)))))
     = [Context_close]"
  by (simp add: exec_defs TC004_def)

text \<open>
  C4 (as amended). The navigation to the base URL, the operation at position 5 of a run
  whose acquisition returned, is issued with \<^verbatim>\<open>wait_until="commit"\<close> and a timeout of
  10000 ms. The navigation of an authored \<open>Navigate url\<close> step is issued with a timeout of
  10000 ms and no \<^verbatim>\<open>wait_until\<close> argument, so the driver's default wait applies. In
  both cases a navigation that raises \<open>e\<close> ends the \<^verbatim>\<open>try\<close> body at once with \<open>e\<close>, and
  \<^verbatim>\<open>run_test\<close> raises \<open>e\<close> when each release returns normally.
\<close>

theorem navigation_calls:
  "((\<forall>i<5. outcome w i = None) \<longrightarrow>
      trace (snd (run_test sc w)) ! 5 = Page_goto base_url (Some ''commit'') 10000 \<and>
      (outcome w 5 = Some e \<longrightarrow>
         try_body sc w init_state = (Inl e, opened_state) \<and>
         (releases_return w (snd (run_test sc w)) \<longrightarrow>
            run_test sc w
              = (Inl e, opened_state\<lparr>trace := opening_calls
                                         @ [Context_close, Browser_close, Pw_stop]\<rparr>))))
   \<and> (i < length (steps sc) \<and> steps sc ! i = Navigate url
        \<and> before_step sc i w = (Inr (), s1) \<longrightarrow>
      trace (snd (run_test sc w)) ! length (trace s1) = Page_goto url None 10000 \<and>
      (outcome w (length (trace s1)) = Some e' \<longrightarrow>
         try_body sc w init_state
           = (Inl e', s1\<lparr>trace := trace s1 @ [Page_goto url None 10000]\<rparr>) \<and>
         (releases_return w (snd (run_test sc w)) \<longrightarrow>
            run_test sc w
              = (Inl e', s1\<lparr>trace := trace s1 @ [Page_goto url None 10000,
                                   Context_close, Browser_close, Pw_stop]\<rparr>))))"
proof (intro conjI impI)
  let ?Y = "map exec_step (steps sc) @ terminal_assertion sc @ [asyncio_sleep 5]"
  assume five: "\<forall>i<5. outcome w i = None"
  have "\<exists>rb ds. try_body sc w init_state = (rb, opened_state\<lparr>trace := opening_calls @ ds\<rparr>)"
  proof (cases "outcome w 5")
    case None
    have six: "\<And>i. i < 6 \<Longrightarrow> outcome w i = None"
    proof -
      fix i :: nat assume "i < 6"
      then have "i < 5 \<or> i = 5" by linarith
      then show "outcome w i = None" using five None by auto
    qed
    have tb: "try_body sc w init_state = block (map tolerant (wait_calls w) @ ?Y) w opened_state"
      unfolding try_body_def using six by (rule opening_returns)
    from block_after_waits_extends[of "wait_calls w" "steps sc" sc w opened_state]
    obtain ds where "snd (block (map tolerant (wait_calls w) @ ?Y) w opened_state)
        = opened_state\<lparr>trace := trace opened_state @ ds\<rparr>" by blast
    then have "try_body sc w init_state
        = (fst (try_body sc w init_state), opened_state\<lparr>trace := opening_calls @ ds\<rparr>)"
      using tb by (simp add: opened_state_def prod_eq_iff)
    then show ?thesis by blast
  next
    case (Some e5)
    have "try_body sc w init_state
        = (Inl e5, \<lparr>trace = take (Suc 5) opening_calls,
                    pw = (0 < (5::nat)), browser = (1 < (5::nat)), context_h = (2 < (5::nat))\<rparr>)"
      unfolding try_body_def using five Some by (intro opening_raises) simp_all
    then have "try_body sc w init_state = (Inl e5, opened_state\<lparr>trace := opening_calls @ []\<rparr>)"
      by (simp add: opened_state_def opening_calls_def)
    then show ?thesis by blast
  qed
  then obtain rb ds where
    tb: "try_body sc w init_state = (rb, opened_state\<lparr>trace := opening_calls @ ds\<rparr>)"
    by blast
  from run_trace_of_body[OF tb] obtain rs where
    "trace (snd (run_test sc w)) = opening_calls @ ds @ rs" by auto
  then show "trace (snd (run_test sc w)) ! 5 = Page_goto base_url (Some ''commit'') 10000"
    by (simp add: opening_calls_def)
next
  assume five: "\<forall>i<5. outcome w i = None" and o5: "outcome w 5 = Some e"
  have "try_body sc w init_state
        = (Inl e, \<lparr>trace = take (Suc 5) opening_calls,
                    pw = (0 < (5::nat)), browser = (1 < (5::nat)), context_h = (2 < (5::nat))\<rparr>)"
    unfolding try_body_def using five o5 by (intro opening_raises) simp_all
  then show tb: "try_body sc w init_state = (Inl e, opened_state)"
    by (simp add: opened_state_def opening_calls_def)
  assume "releases_return w (snd (run_test sc w))"
  from run_test_of_body(3)[OF tb _ this]
  show "run_test sc w
      = (Inl e, opened_state\<lparr>trace := opening_calls @ [Context_close, Browser_close, Pw_stop]\<rparr>)"
    by (simp add: due_releases_def opened_state_def)
next
  assume a: "i < length (steps sc) \<and> steps sc ! i = Navigate url
             \<and> before_step sc i w = (Inr (), s1)"
  let ?rest = "map tolerant [] @ map exec_step (drop (Suc i) (steps sc))
               @ terminal_assertion sc @ [asyncio_sleep 5]"
  have tb: "try_body sc w init_state
      = block (exec_step (Navigate url) # ?rest) w s1"
    using try_body_via_step[of i sc w] a by simp
  have "\<exists>rb ds. try_body sc w init_state
        = (rb, s1\<lparr>trace := trace s1 @ Page_goto url None 10000 # ds\<rparr>)"
  proof (cases "outcome w (length (trace s1))")
    case None
    let ?s2 = "s1\<lparr>trace := trace s1 @ [Page_goto url None 10000, Asyncio_sleep 3]\<rparr>"
    have tb2: "try_body sc w init_state = block ?rest w ?s2"
      unfolding tb using None by (simp add: perform_def asyncio_sleep_def)
    from block_after_waits_extends[of "[]" "drop (Suc i) (steps sc)" sc w ?s2]
    obtain ds where "snd (block ?rest w ?s2) = ?s2\<lparr>trace := trace ?s2 @ ds\<rparr>" by blast
    then have "try_body sc w init_state
        = (fst (try_body sc w init_state),
           s1\<lparr>trace := trace s1 @ Page_goto url None 10000 # Asyncio_sleep 3 # ds\<rparr>)"
      using tb2 by (simp add: prod_eq_iff)
    then show ?thesis by blast
  next
    case (Some e2)
    then have "try_body sc w init_state
        = (Inl e2, s1\<lparr>trace := trace s1 @ Page_goto url None 10000 # []\<rparr>)"
      unfolding tb by (simp add: perform_def)
    then show ?thesis by blast
  qed
  then obtain rb ds where
    tb3: "try_body sc w init_state = (rb, s1\<lparr>trace := trace s1 @ Page_goto url None 10000 # ds\<rparr>)"
    by blast
  from run_trace_of_body[OF tb3] obtain rs where
    "trace (snd (run_test sc w)) = trace s1 @ Page_goto url None 10000 # ds @ rs" by auto
  then show "trace (snd (run_test sc w)) ! length (trace s1) = Page_goto url None 10000"
    by (simp add: nth_append)
next
  assume a: "i < length (steps sc) \<and> steps sc ! i = Navigate url
             \<and> before_step sc i w = (Inr (), s1)"
    and o: "outcome w (length (trace s1)) = Some e'"
  show tb: "try_body sc w init_state
           = (Inl e', s1\<lparr>trace := trace s1 @ [Page_goto url None 10000]\<rparr>)"
    using try_body_via_step[of i sc w] a o by (simp add: perform_def)
  have due: "due_releases (s1\<lparr>trace := trace s1 @ [Page_goto url None 10000]\<rparr>)
      = [Context_close, Browser_close, Pw_stop]"
    using before_step_handles[of sc i w "()" s1] a by (simp add: due_releases_def)
  assume "releases_return w (snd (run_test sc w))"
  from run_test_of_body(3)[OF tb due this]
  show "run_test sc w
      = (Inl e', s1\<lparr>trace := trace s1 @ [Page_goto url None 10000,
                                   Context_close, Browser_close, Pw_stop]\<rparr>)"
    by simp
qed

text \<open>
  Witness for C4: script TC005 with one frame, first in the world where the navigation to
  the base URL (position 5) raises, then in the world where the navigation of the first
  authored step (position 8) raises.
\<close>

theorem navigation_calls_witness:
  "(list_all
      (\<lambda>i. outcome (raises_at 5 (PlaywrightError ''net::ERR_CONNECTION_REFUSED'') all_return) i
             = None) [0 ..< 5]
    \<and> outcome (raises_at 5 (PlaywrightError ''net::ERR_CONNECTION_REFUSED'') all_return) 5
        = Some (PlaywrightError ''net::ERR_CONNECTION_REFUSED'')
    \<and> releases_return (raises_at 5 (PlaywrightError ''net::ERR_CONNECTION_REFUSED'') all_return)
         (snd (run_test TC005
            (raises_at 5 (PlaywrightError ''net::ERR_CONNECTION_REFUSED'') all_return)))
    \<and> run_test TC005 (raises_at 5 (PlaywrightError ''net::ERR_CONNECTION_REFUSED'') all_return)
        = (Inl (PlaywrightError ''net::ERR_CONNECTION_REFUSED''),
           opened_state\<lparr>trace := opening_calls @ [Context_close, Browser_close, Pw_stop]\<rparr>))
   \<and> (0 < length (steps TC005)
    \<and> steps TC005 ! 0 = Navigate ''http://localhost:8080/login''
    \<and> before_step TC005 0
          (raises_at 8 (PlaywrightTimeoutError ''Timeout 10000ms exceeded.'') all_return)
        = (Inr (), opened_state\<lparr>trace := opening_calls
              @ [Page_wait_for_load_state ''domcontentloaded'' 3000,
                 Frame_wait_for_load_state 0 ''domcontentloaded'' 3000]\<rparr>)
    \<and> trace (snd (run_test TC005
          (raises_at 8 (PlaywrightTimeoutError ''Timeout 10000ms exceeded.'') all_return))) ! 8
        = Page_goto ''http://localhost:8080/login'' None 10000
    \<and> fst (try_body TC005
          (raises_at 8 (PlaywrightTimeoutError ''Timeout 10000ms exceeded.'') all_return)
          init_state)
        = Inl (PlaywrightTimeoutError ''Timeout 10000ms exceeded.''))"
proof -
  let ?e5 = "PlaywrightError ''net::ERR_CONNECTION_REFUSED''"
  let ?W5 = "raises_at 5 ?e5 all_return"
  let ?e8 = "PlaywrightTimeoutError ''Timeout 10000ms exceeded.''"
  let ?W8 = "raises_at 8 ?e8 all_return"
  let ?s1 = "opened_state\<lparr>trace := opening_calls
              @ [Page_wait_for_load_state ''domcontentloaded'' 3000,
                 Frame_wait_for_load_state 0 ''domcontentloaded'' 3000]\<rparr>"
  have a1: "\<forall>i<5. outcome ?W5 i = None" by (simp add: raises_at_def all_return_def)
  have g1: "list_all (\<lambda>i. outcome ?W5 i = None) [0 ..< 5]"
    by (simp add: raises_at_def all_return_def list_all_iff)
  have a2: "outcome ?W5 5 = Some ?e5" by (simp add: raises_at_def)
  have a3: "releases_return ?W5 (snd (run_test TC005 ?W5))"
    by (simp add: exec_defs TC005_def releases_return_def)
  from navigation_calls[where w="?W5" and sc=TC005 and e="?e5"] a1 a2 a3
  have a4: "run_test TC005 ?W5
        = (Inl ?e5, opened_state\<lparr>trace := opening_calls
                                  @ [Context_close, Browser_close, Pw_stop]\<rparr>)"
    by blast
  have b1: "0 < length (steps TC005)" by (simp add: TC005_def)
  have b2: "steps TC005 ! 0 = Navigate ''http://localhost:8080/login''" by (simp add: TC005_def)
  have b3: "before_step TC005 0 ?W8 = (Inr (), ?s1)"
    by (simp add: exec_defs opened_state_def opening_calls_def)
  have l: "length (trace ?s1) = 8" by (simp add: opening_calls_def)
  have b4: "outcome ?W8 (length (trace ?s1)) = Some ?e8" unfolding l by (simp add: raises_at_def)
  from navigation_calls[where w="?W8" and sc=TC005 and i=0
      and url="''http://localhost:8080/login''" and ?s1.0="?s1" and e'="?e8"] b1 b2 b3 b4
  have b5: "trace (snd (run_test TC005 ?W8)) ! length (trace ?s1)
        = Page_goto ''http://localhost:8080/login'' None 10000"
    and b6: "try_body TC005 ?W8 init_state
        = (Inl ?e8, ?s1\<lparr>trace := trace ?s1 @ [Page_goto ''http://localhost:8080/login'' None 10000]\<rparr>)"
    by blast+
  have b6': "fst (try_body TC005 ?W8 init_state) = Inl ?e8" using b6 by simp
  show ?thesis
    apply (intro conjI)
            apply (rule g1)
           apply (rule a2)
          apply (rule a3)
         apply (rule a4)
        apply (rule b1)
       apply (rule b2)
      apply (rule b3)
     apply (rule b5[unfolded l])
    apply (rule b6')
    done
qed

text \<open>
  Counterexample to C4 as stated (every navigation waits only until the request is
  committed): in the run of script TC004 where every operation returns, the navigation to
  the base URL carries \<^verbatim>\<open>wait_until="commit"\<close>, and the navigation of the first authored
  step, \<^verbatim>\<open>page.goto('http://localhost:8080/login', timeout=10000)\<close>, carries no
  \<^verbatim>\<open>wait_until\<close>.
\<close>

theorem later_navigation_without_commit:
  "steps TC004 ! 0 = Navigate ''http://localhost:8080/login''
   \<and> trace (snd (run_test TC004 all_return)) ! 5
       = Page_goto base_url (Some ''commit'') 10000
   \<and> trace (snd (run_test TC004 all_return)) ! 8
       = Page_goto ''http://localhost:8080/login'' None 10000"
  by (simp add: exec_defs TC004_def)

section \<open>Claims about the terminal assertion\<close>

text \<open>
  C5. A run performs the visibility check at most once: the checks in its trace are
  exactly the one authored check when all that precedes the assertion has completed (the
  acquisition, the navigation to the base URL, the tolerant waits, whether they returned
  or raised a driver error, and every authored step) and the page lookup before the check
  returned, and none otherwise. In the first case every call of every authored step has
  been performed, in order, and the check comes right after them.
\<close>

theorem one_terminal_assertion:
  "case before_step sc (length (steps sc)) w of (r1, s1) \<Rightarrow>
     filter is_expect (trace (snd (run_test sc w)))
       = (if r1 = Inr () \<and> outcome w (length (trace s1)) = None
          then [Expect_to_be_visible (expected_text sc) (assert_timeout sc)] else [])
     \<and> (r1 = Inr () \<and> outcome w (length (trace s1)) = None \<longrightarrow>
          trace s1 = opening_calls @ wait_calls w @ concat (map (step_calls w) (steps sc))
          \<and> take (length (trace s1) + 2) (trace (snd (run_test sc w)))
              = trace s1 @ [Context_pages_last,
                            Expect_to_be_visible (expected_text sc) (assert_timeout sc)])"
proof (cases "before_step sc (length (steps sc)) w")
  case (Pair r1 s1)
  from before_step_shape[where sc=sc and i="length (steps sc)" and w=w] Pair
  have n1: "filter is_expect (trace s1) = []"
    and h: "\<forall>u. r1 = Inr u \<longrightarrow> due_releases s1 = [Context_close, Browser_close, Pw_stop]"
    by (simp_all add: no_expect_filter due_releases_def)
  let ?n = "length (trace s1)"
  let ?E = "Expect_to_be_visible (expected_text sc) (assert_timeout sc)"
  show ?thesis
  proof (cases r1)
    case (Inl e)
    then have tb: "try_body sc w init_state = (Inl e, s1)"
      using Pair by (simp add: try_body_via_before)
    have "run_test sc w = finish w (Inl e, s1)" using tb by (simp add: run_test_finish)
    then have "trace (snd (run_test sc w))
        = trace s1 @ attempted (outcome w) ?n (due_releases s1)"
      by (simp add: finish_def)
    then have "filter is_expect (trace (snd (run_test sc w))) = []"
      using n1 by (simp add: attempted_due_no_expect)
    then show ?thesis using Pair Inl by simp
  next
    case (Inr u)
    then have due: "due_releases s1 = [Context_close, Browser_close, Pw_stop]" using h by simp
    have bs: "before_step sc (length (steps sc)) w = (Inr u, s1)" using Pair Inr by simp
    have tr1: "trace s1 = opening_calls @ wait_calls w @ concat (map (step_calls w) (steps sc))"
      using before_step_Inr(1)[OF bs] by (simp add: opened_state_def)
    obtain rb sb where tb: "try_body sc w init_state = (rb, sb)"
      by (cases "try_body sc w init_state")
    have tb': "block (terminal_assertion sc @ [asyncio_sleep 5]) w s1 = (rb, sb)"
      using tb bs by (simp add: try_body_via_before)
    show ?thesis
    proof (cases "outcome w ?n")
      case (Some e)
      then have sb: "sb = s1\<lparr>trace := trace s1 @ [Context_pages_last]\<rparr>"
        using tb' by (simp add: terminal_cases)
      then have "due_releases sb = [Context_close, Browser_close, Pw_stop]"
        using due by (simp add: due_releases_def)
      from run_test_of_body(1)[OF tb this]
      have "filter is_expect (trace (snd (run_test sc w))) = []"
        using sb n1 attempted_no_expect by simp
      then show ?thesis using Some Pair by simp
    next
      case None
      then obtain cs where
        sb: "sb = s1\<lparr>trace := trace s1 @ Context_pages_last # ?E # cs\<rparr>"
        and cs: "cs = [] \<or> cs = [Asyncio_sleep 5]"
        using tb' by (auto simp: terminal_cases split: option.splits)
      then have "due_releases sb = [Context_close, Browser_close, Pw_stop]"
        using due by (simp add: due_releases_def)
      from run_test_of_body(1)[OF tb this]
      have tr: "trace (snd (run_test sc w))
          = trace s1 @ Context_pages_last # ?E # cs
            @ attempted (outcome w) (length (trace sb)) [Context_close, Browser_close, Pw_stop]"
        using sb by simp
      have "filter is_expect (trace (snd (run_test sc w))) = [?E]"
        unfolding tr using n1 cs attempted_no_expect by auto
      moreover have "take (?n + 2) (trace (snd (run_test sc w)))
          = trace s1 @ [Context_pages_last, ?E]"
        unfolding tr by simp
      ultimately show ?thesis using Pair Inr None tr1 by simp
    qed
  qed
qed

text \<open>
  Witness for C5: script TC005 in the world where every operation returns.
\<close>

theorem one_terminal_assertion_witness:
  "fst (before_step TC005 (length (steps TC005)) all_return) = Inr ()
   \<and> outcome all_return (length (trace (snd (before_step TC005 (length (steps TC005))
         all_return)))) = None
   \<and> filter is_expect (trace (snd (run_test TC005 all_return)))
       = [Expect_to_be_visible ''text=Listing payment successful and status is now pending approval'' 30000]"
proof -
  have h1: "fst (before_step TC005 (length (steps TC005)) all_return) = Inr ()"
    by (simp add: exec_defs TC005_def)
  have h2: "outcome all_return (length (trace (snd (before_step TC005 (length (steps TC005))
         all_return)))) = None"
    by (simp add: all_return_def)
  have e: "expected_text TC005
      = ''text=Listing payment successful and status is now pending approval''"
    "assert_timeout TC005 = 30000"
    by (simp_all add: TC005_def)
  from one_terminal_assertion[where sc=TC005 and w=all_return] h1 h2
  have "filter is_expect (trace (snd (run_test TC005 all_return)))
       = [Expect_to_be_visible (expected_text TC005) (assert_timeout TC005)]"
    by (cases "before_step TC005 (length (steps TC005)) all_return") simp
  then have c: "filter is_expect (trace (snd (run_test TC005 all_return)))
       = [Expect_to_be_visible ''text=Listing payment successful and status is now pending approval'' 30000]"
    unfolding e .
  show ?thesis
    apply (intro conjI)
      apply (rule h1)
     apply (rule h2)
    apply (rule c)
    done
qed

text \<open>
  C6 (as amended). When all that precedes the assertion has completed and the
  visibility check raises an \<^verbatim>\<open>AssertionError\<close>, the \<^verbatim>\<open>try\<close> body raises an
  \<^verbatim>\<open>AssertionError\<close> carrying the authored message of the scenario. That error is what
  \<^verbatim>\<open>run_test\<close> raises when each release of the cleanup returns normally; when a release
  raises, \<^verbatim>\<open>run_test\<close> raises the exception of the release.
\<close>

theorem assertion_failure_reported:
  assumes "before_step sc (length (steps sc)) w = (Inr (), s1)"
    and "outcome w (length (trace s1)) = None"
    and "outcome w (Suc (length (trace s1))) = Some e"
    and "isinstance_AssertionError e"
  shows "try_body sc w init_state
           = (Inl (AssertionError (failure_message sc)),
              s1\<lparr>trace := trace s1 @ [Context_pages_last,
                   Expect_to_be_visible (expected_text sc) (assert_timeout sc)]\<rparr>)
       \<and> fst (run_test sc w)
           = (case release_error (outcome w) (length (trace s1) + 2)
                     [Context_close, Browser_close, Pw_stop] of
                None \<Rightarrow> Inl (AssertionError (failure_message sc))
              | Some e' \<Rightarrow> Inl e')
       \<and> (releases_return w (snd (run_test sc w)) \<longrightarrow>
            run_test sc w
              = (Inl (AssertionError (failure_message sc)),
                 s1\<lparr>trace := trace s1 @ [Context_pages_last,
                      Expect_to_be_visible (expected_text sc) (assert_timeout sc),
                      Context_close, Browser_close, Pw_stop]\<rparr>))"
proof -
  let ?sb = "s1\<lparr>trace := trace s1 @ [Context_pages_last,
                   Expect_to_be_visible (expected_text sc) (assert_timeout sc)]\<rparr>"
  have tb: "try_body sc w init_state = (Inl (AssertionError (failure_message sc)), ?sb)"
    using assms by (simp add: try_body_via_before terminal_cases)
  have due: "due_releases ?sb = [Context_close, Browser_close, Pw_stop]"
    using before_step_handles[OF assms(1)] by (simp add: due_releases_def)
  note rt = run_test_of_body[OF tb due]
  have r2: "fst (run_test sc w)
           = (case release_error (outcome w) (length (trace s1) + 2)
                     [Context_close, Browser_close, Pw_stop] of
                None \<Rightarrow> Inl (AssertionError (failure_message sc))
              | Some e' \<Rightarrow> Inl e')"
    using rt(2) by simp
  have r3: "releases_return w (snd (run_test sc w)) \<longrightarrow>
            run_test sc w
              = (Inl (AssertionError (failure_message sc)),
                 s1\<lparr>trace := trace s1 @ [Context_pages_last,
                      Expect_to_be_visible (expected_text sc) (assert_timeout sc),
                      Context_close, Browser_close, Pw_stop]\<rparr>)"
  proof
    assume "releases_return w (snd (run_test sc w))"
    from rt(3)[OF this] show "run_test sc w
              = (Inl (AssertionError (failure_message sc)),
                 s1\<lparr>trace := trace s1 @ [Context_pages_last,
                      Expect_to_be_visible (expected_text sc) (assert_timeout sc),
                      Context_close, Browser_close, Pw_stop]\<rparr>)"
      by simp
  qed
  show ?thesis
    apply (intro conjI)
      apply (rule tb)
     apply (rule r2)
    apply (rule r3)
    done
qed

text \<open>
  Witness for C6: script TC018 with one frame; the visibility check (position 30) raises
  an \<^verbatim>\<open>AssertionError\<close> and the three releases return.
\<close>

theorem assertion_failure_reported_witness:
  "fst (before_step TC018 (length (steps TC018))
         (raises_at 30 (AssertionError ''Locator expected to be visible'') all_return)) = Inr ()
   \<and> outcome (raises_at 30 (AssertionError ''Locator expected to be visible'') all_return) 29
       = None
   \<and> outcome (raises_at 30 (AssertionError ''Locator expected to be visible'') all_return) 30
       = Some (AssertionError ''Locator expected to be visible'')
   \<and> isinstance_AssertionError (AssertionError ''Locator expected to be visible'')
   \<and> releases_return (raises_at 30 (AssertionError ''Locator expected to be visible'') all_return)
         (snd (run_test TC018
            (raises_at 30 (AssertionError ''Locator expected to be visible'') all_return)))
   \<and> fst (run_test TC018
         (raises_at 30 (AssertionError ''Locator expected to be visible'') all_return))
       = Inl (AssertionError (failure_message TC018))"
proof -
  let ?e = "AssertionError ''Locator expected to be visible''"
  let ?W = "raises_at 30 ?e all_return"
  have "fst (before_step TC018 (length (steps TC018)) ?W) = Inr ()
      \<and> length (trace (snd (before_step TC018 (length (steps TC018)) ?W))) = 29"
    by (simp add: exec_defs TC018_def)
  then obtain s1 where b: "before_step TC018 (length (steps TC018)) ?W = (Inr (), s1)"
    and l: "length (trace s1) = 29"
    by (cases "before_step TC018 (length (steps TC018)) ?W") auto
  have h1: "fst (before_step TC018 (length (steps TC018)) ?W) = Inr ()" using b by simp
  have o29: "outcome ?W 29 = None" by (simp add: raises_at_def all_return_def)
  have o30: "outcome ?W 30 = Some ?e" by (simp add: raises_at_def)
  have o1: "outcome ?W (length (trace s1)) = None" unfolding l by (rule o29)
  have o2: "outcome ?W (Suc (length (trace s1))) = Some ?e" unfolding l using o30 by simp
  have ia: "isinstance_AssertionError ?e" by simp
  have rr: "releases_return ?W (snd (run_test TC018 ?W))"
    by (simp add: exec_defs TC018_def releases_return_def)
  from assertion_failure_reported[OF b o1 o2 ia] rr
  have "run_test TC018 ?W
      = (Inl (AssertionError (failure_message TC018)),
         s1\<lparr>trace := trace s1 @ [Context_pages_last,
              Expect_to_be_visible (expected_text TC018) (assert_timeout TC018),
              Context_close, Browser_close, Pw_stop]\<rparr>)"
    by blast
  then have c: "fst (run_test TC018 ?W) = Inl (AssertionError (failure_message TC018))"
    by simp
  show ?thesis
    apply (intro conjI)
         apply (rule h1)
        apply (rule o29)
       apply (rule o30)
      apply (rule ia)
     apply (rule rr)
    apply (rule c)
    done
qed

text \<open>
  Counterexample to C6 as stated (the descriptive error is the reported failure): script
  TC008 with one frame; the visibility check (position 39) raises an \<^verbatim>\<open>AssertionError\<close>,
  which the body converts into the authored error, and then \<^verbatim>\<open>context.close()\<close>
  (position 40) raises. \<^verbatim>\<open>run_test\<close> raises the exception of the release.
\<close>

theorem assertion_error_replaced_by_close_error:
  "fst (try_body TC008
         (raises_at 40 (PlaywrightError ''Target closed'')
           (raises_at 39 (AssertionError ''Locator expected to be visible'') all_return))
         init_state)
     = Inl (AssertionError (failure_message TC008))
   \<and> trace (snd (try_body TC008
         (raises_at 40 (PlaywrightError ''Target closed'')
           (raises_at 39 (AssertionError ''Locator expected to be visible'') all_return))
         init_state)) ! 39
     = Expect_to_be_visible ''text=Refund Processed Successfully'' 1000
   \<and> fst (run_test TC008
         (raises_at 40 (PlaywrightError ''Target closed'')
           (raises_at 39 (AssertionError ''Locator expected to be visible'') all_return)))
     = Inl (PlaywrightError ''Target closed'')"
  by (simp add: exec_defs TC008_def)

text \<open>
  C7 (as amended). In script TC004, when all that precedes the assertion has completed,
  the operations performed are the opening of the session, the tolerant waits and the
  thirty calls of the eleven authored steps listed below (among them the navigation to
  \<^verbatim>\<open>/login\<close>, the filling of the password \<^verbatim>\<open>12345abc\<close>, the filling of the e-mail
  \<^verbatim>\<open>host@example.com\<close> and the clicks on Sign In). If the check of the text
  \<^verbatim>\<open>Listing Published Successfully\<close> with timeout 1000 ms then raises an
  \<^verbatim>\<open>AssertionError\<close>, the \<^verbatim>\<open>try\<close> body raises the authored error about the listing draft
  and the image upload; when each release returns normally, \<^verbatim>\<open>run_test\<close> raises that error
  and the three releases are performed.
\<close>

theorem TC004_assertion_failure:
  assumes "before_step TC004 (length (steps TC004)) w = (Inr (), s1)"
    and "outcome w (length (trace s1)) = None"
    and "outcome w (Suc (length (trace s1))) = Some e"
    and "isinstance_AssertionError e"
  shows "trace s1 = opening_calls @ wait_calls w @
     [Page_goto ''http://localhost:8080/login'' None 10000,
      Asyncio_sleep 3,
      Page_goto ''http://localhost:8080/'' None 10000,
      Asyncio_sleep 3,
      Page_goto ''http://localhost:8080/login'' None 10000,
      Asyncio_sleep 3,
      Context_pages_last,
      Page_wait_for_timeout 3000,
      Elem_click ''xpath=html/body/div/div[2]/div/div/div[2]/div[2]/a'' 5000,
      Context_pages_last,
      Page_wait_for_timeout 3000,
      Elem_click ''xpath=html/body/div/div[2]/section[3]/div/div/div[2]/div/a'' 5000,
      Context_pages_last,
      Page_wait_for_timeout 3000,
      Elem_fill ''xpath=html/body/div/div[2]/div[2]/div/div[3]/div/div[2]/form/div/div/input'' ''Test'',
      Context_pages_last,
      Page_wait_for_timeout 3000,
      Elem_fill ''xpath=html/body/div/div[2]/div[2]/div/div[3]/div/div[2]/form/div[2]/div/input'' ''12345abc'',
      Context_pages_last,
      Page_wait_for_timeout 3000,
      Elem_click ''xpath=html/body/div/div[2]/div[2]/div/div[3]/div/div[2]/form/button'' 5000,
      Context_pages_last,
      Page_wait_for_timeout 3000,
      Elem_fill ''xpath=html/body/div/div[2]/div[2]/div/div[3]/div/div[2]/form/div/div/input'' ''host@example.com'',
      Context_pages_last,
      Page_wait_for_timeout 3000,
      Elem_click ''xpath=html/body/div/div[2]/div[2]/div/div[3]/div/div[2]/form/button'' 5000,
      Context_pages_last,
      Page_wait_for_timeout 3000,
      Elem_click ''xpath=html/body/div/div[2]/div[2]/div/div[3]/div/div[2]/form/button'' 5000]
   \<and> try_body TC004 w init_state
       = (Inl (AssertionError
            ''Test case failed: The listing creation test did not pass as expected. The listing was not saved as a draft and images were not confirmed uploaded. Expected 'draft' status and image previews, but these were not found on the page.''),
          s1\<lparr>trace := trace s1 @ [Context_pages_last,
               Expect_to_be_visible ''text=Listing Published Successfully'' 1000]\<rparr>)
   \<and> (releases_return w (snd (run_test TC004 w)) \<longrightarrow>
        run_test TC004 w
          = (Inl (AssertionError
               ''Test case failed: The listing creation test did not pass as expected. The listing was not saved as a draft and images were not confirmed uploaded. Expected 'draft' status and image previews, but these were not found on the page.''),
             s1\<lparr>trace := trace s1 @ [Context_pages_last,
                  Expect_to_be_visible ''text=Listing Published Successfully'' 1000,
                  Context_close, Browser_close, Pw_stop]\<rparr>))"
proof -
  have fm: "failure_message TC004 =
      ''Test case failed: The listing creation test did not pass as expected. The listing was not saved as a draft and images were not confirmed uploaded. Expected 'draft' status and image previews, but these were not found on the page.''"
    and et: "expected_text TC004 = ''text=Listing Published Successfully''"
    and at: "assert_timeout TC004 = 1000"
    by (simp_all add: TC004_def)
  let ?sb = "s1\<lparr>trace := trace s1 @ [Context_pages_last,
               Expect_to_be_visible (expected_text TC004) (assert_timeout TC004)]\<rparr>"
  have "s1 = opened_state\<lparr>trace := opening_calls @ wait_calls w
                 @ concat (map (step_calls w) (take (length (steps TC004)) (steps TC004)))\<rparr>"
    using assms(1) by (rule before_step_Inr(1))
  then have "trace s1 = opening_calls @ wait_calls w @ concat (map (step_calls w) (steps TC004))"
    by simp
  also have "concat (map (step_calls w) (steps TC004)) =
     [Page_goto ''http://localhost:8080/login'' None 10000,
      Asyncio_sleep 3,
      Page_goto ''http://localhost:8080/'' None 10000,
      Asyncio_sleep 3,
      Page_goto ''http://localhost:8080/login'' None 10000,
      Asyncio_sleep 3,
      Context_pages_last,
      Page_wait_for_timeout 3000,
      Elem_click ''xpath=html/body/div/div[2]/div/div/div[2]/div[2]/a'' 5000,
      Context_pages_last,
      Page_wait_for_timeout 3000,
      Elem_click ''xpath=html/body/div/div[2]/section[3]/div/div/div[2]/div/a'' 5000,
      Context_pages_last,
      Page_wait_for_timeout 3000,
      Elem_fill ''xpath=html/body/div/div[2]/div[2]/div/div[3]/div/div[2]/form/div/div/input'' ''Test'',
      Context_pages_last,
      Page_wait_for_timeout 3000,
      Elem_fill ''xpath=html/body/div/div[2]/div[2]/div/div[3]/div/div[2]/form/div[2]/div/input'' ''12345abc'',
      Context_pages_last,
      Page_wait_for_timeout 3000,
      Elem_click ''xpath=html/body/div/div[2]/div[2]/div/div[3]/div/div[2]/form/button'' 5000,
      Context_pages_last,
      Page_wait_for_timeout 3000,
      Elem_fill ''xpath=html/body/div/div[2]/div[2]/div/div[3]/div/div[2]/form/div/div/input'' ''host@example.com'',
      Context_pages_last,
      Page_wait_for_timeout 3000,
      Elem_click ''xpath=html/body/div/div[2]/div[2]/div/div[3]/div/div[2]/form/button'' 5000,
      Context_pages_last,
      Page_wait_for_timeout 3000,
      Elem_click ''xpath=html/body/div/div[2]/div[2]/div/div[3]/div/div[2]/form/button'' 5000]"
    by (simp add: TC004_def)
  finally have r1: "trace s1 = opening_calls @ wait_calls w @
     [Page_goto ''http://localhost:8080/login'' None 10000,
      Asyncio_sleep 3,
      Page_goto ''http://localhost:8080/'' None 10000,
      Asyncio_sleep 3,
      Page_goto ''http://localhost:8080/login'' None 10000,
      Asyncio_sleep 3,
      Context_pages_last,
      Page_wait_for_timeout 3000,
      Elem_click ''xpath=html/body/div/div[2]/div/div/div[2]/div[2]/a'' 5000,
      Context_pages_last,
      Page_wait_for_timeout 3000,
      Elem_click ''xpath=html/body/div/div[2]/section[3]/div/div/div[2]/div/a'' 5000,
      Context_pages_last,
      Page_wait_for_timeout 3000,
      Elem_fill ''xpath=html/body/div/div[2]/div[2]/div/div[3]/div/div[2]/form/div/div/input'' ''Test'',
      Context_pages_last,
      Page_wait_for_timeout 3000,
      Elem_fill ''xpath=html/body/div/div[2]/div[2]/div/div[3]/div/div[2]/form/div[2]/div/input'' ''12345abc'',
      Context_pages_last,
      Page_wait_for_timeout 3000,
      Elem_click ''xpath=html/body/div/div[2]/div[2]/div/div[3]/div/div[2]/form/button'' 5000,
      Context_pages_last,
      Page_wait_for_timeout 3000,
      Elem_fill ''xpath=html/body/div/div[2]/div[2]/div/div[3]/div/div[2]/form/div/div/input'' ''host@example.com'',
      Context_pages_last,
      Page_wait_for_timeout 3000,
      Elem_click ''xpath=html/body/div/div[2]/div[2]/div/div[3]/div/div[2]/form/button'' 5000,
      Context_pages_last,
      Page_wait_for_timeout 3000,
      Elem_click ''xpath=html/body/div/div[2]/div[2]/div/div[3]/div/div[2]/form/button'' 5000]" .
  have tb: "try_body TC004 w init_state = (Inl (AssertionError (failure_message TC004)), ?sb)"
    using assms by (simp add: try_body_via_before terminal_cases)
  have due: "due_releases ?sb = [Context_close, Browser_close, Pw_stop]"
    using before_step_handles[OF assms(1)] by (simp add: due_releases_def)
  have r3: "releases_return w (snd (run_test TC004 w)) \<longrightarrow>
        run_test TC004 w
          = (Inl (AssertionError (failure_message TC004)),
             s1\<lparr>trace := trace s1 @ [Context_pages_last,
                  Expect_to_be_visible (expected_text TC004) (assert_timeout TC004),
                  Context_close, Browser_close, Pw_stop]\<rparr>)"
  proof
    assume "releases_return w (snd (run_test TC004 w))"
    from run_test_of_body(3)[OF tb due this]
    show "run_test TC004 w
          = (Inl (AssertionError (failure_message TC004)),
             s1\<lparr>trace := trace s1 @ [Context_pages_last,
                  Expect_to_be_visible (expected_text TC004) (assert_timeout TC004),
                  Context_close, Browser_close, Pw_stop]\<rparr>)"
      by simp
  qed
  show ?thesis
    apply (intro conjI)
      apply (rule r1)
     apply (rule tb[unfolded fm et at])
    apply (rule r3[unfolded fm et at])
    done
qed

text \<open>
  Witness for C7: script TC004 with one frame; the visibility check (position 39) raises
  an \<^verbatim>\<open>AssertionError\<close> and the three releases return.
\<close>

theorem TC004_assertion_failure_witness:
  "fst (before_step TC004 (length (steps TC004))
         (raises_at 39 (AssertionError ''Locator expected to be visible'') all_return)) = Inr ()
   \<and> outcome (raises_at 39 (AssertionError ''Locator expected to be visible'') all_return) 38
       = None
   \<and> outcome (raises_at 39 (AssertionError ''Locator expected to be visible'') all_return) 39
       = Some (AssertionError ''Locator expected to be visible'')
   \<and> isinstance_AssertionError (AssertionError ''Locator expected to be visible'')
   \<and> releases_return (raises_at 39 (AssertionError ''Locator expected to be visible'') all_return)
         (snd (run_test TC004
            (raises_at 39 (AssertionError ''Locator expected to be visible'') all_return)))
   \<and> fst (run_test TC004
         (raises_at 39 (AssertionError ''Locator expected to be visible'') all_return))
       = Inl (AssertionError
           ''Test case failed: The listing creation test did not pass as expected. The listing was not saved as a draft and images were not confirmed uploaded. Expected 'draft' status and image previews, but these were not found on the page.'')"
proof -
  let ?e = "AssertionError ''Locator expected to be visible''"
  let ?W = "raises_at 39 ?e all_return"
  have "fst (before_step TC004 (length (steps TC004)) ?W) = Inr ()
      \<and> length (trace (snd (before_step TC004 (length (steps TC004)) ?W))) = 38"
    by (simp add: exec_defs TC004_def)
  then obtain s1 where b: "before_step TC004 (length (steps TC004)) ?W = (Inr (), s1)"
    and l: "length (trace s1) = 38"
    by (cases "before_step TC004 (length (steps TC004)) ?W") auto
  have h1: "fst (before_step TC004 (length (steps TC004)) ?W) = Inr ()" using b by simp
  have o38: "outcome ?W 38 = None" by (simp add: raises_at_def all_return_def)
  have o39: "outcome ?W 39 = Some ?e" by (simp add: raises_at_def)
  have o1: "outcome ?W (length (trace s1)) = None" unfolding l by (rule o38)
  have o2: "outcome ?W (Suc (length (trace s1))) = Some ?e" unfolding l using o39 by simp
  have ia: "isinstance_AssertionError ?e" by simp
  have rr: "releases_return ?W (snd (run_test TC004 ?W))"
    by (simp add: exec_defs TC004_def releases_return_def)
  from TC004_assertion_failure[OF b o1 o2 ia] rr
  have "run_test TC004 ?W
          = (Inl (AssertionError
               ''Test case failed: The listing creation test did not pass as expected. The listing was not saved as a draft and images were not confirmed uploaded. Expected 'draft' status and image previews, but these were not found on the page.''),
             s1\<lparr>trace := trace s1 @ [Context_pages_last,
                  Expect_to_be_visible ''text=Listing Published Successfully'' 1000,
                  Context_close, Browser_close, Pw_stop]\<rparr>)"
    by blast
  then have c: "fst (run_test TC004 ?W)
       = Inl (AssertionError
           ''Test case failed: The listing creation test did not pass as expected. The listing was not saved as a draft and images were not confirmed uploaded. Expected 'draft' status and image previews, but these were not found on the page.'')"
    by simp
  show ?thesis
    apply (intro conjI)
         apply (rule h1)
        apply (rule o38)
       apply (rule o39)
      apply (rule ia)
     apply (rule rr)
    apply (rule c)
    done
qed

text \<open>
  Counterexample to C7 as stated (the authored error is raised and teardown completes):
  script TC004 with one frame; the visibility check (position 39) raises an
  \<^verbatim>\<open>AssertionError\<close> and then \<^verbatim>\<open>browser.close()\<close> (position 41) raises. \<^verbatim>\<open>run_test\<close> raises
  the exception of the release and the driver, which is held, is never stopped.
\<close>

theorem TC004_teardown_incomplete:
  "trace (snd (run_test TC004
         (raises_at 41 (PlaywrightError ''Browser has been closed'')
           (raises_at 39 (AssertionError ''Locator expected to be visible'') all_return)))) ! 39
     = Expect_to_be_visible ''text=Listing Published Successfully'' 1000
   \<and> fst (try_body TC004
         (raises_at 41 (PlaywrightError ''Browser has been closed'')
           (raises_at 39 (AssertionError ''Locator expected to be visible'') all_return))
         init_state)
     = Inl (AssertionError (failure_message TC004))
   \<and> fst (run_test TC004
         (raises_at 41 (PlaywrightError ''Browser has been closed'')
           (raises_at 39 (AssertionError ''Locator expected to be visible'') all_return)))
     = Inl (PlaywrightError ''Browser has been closed'')
   \<and> filter is_release (trace (snd (run_test TC004
         (raises_at 41 (PlaywrightError ''Browser has been closed'')
           (raises_at 39 (AssertionError ''Locator expected to be visible'') all_return)))))
     = [Context_close, Browser_close]
   \<and> pw (snd (run_test TC004
         (raises_at 41 (PlaywrightError ''Browser has been closed'')
           (raises_at 39 (AssertionError ''Locator expected to be visible'') all_return))))"
  by (simp add: exec_defs TC004_def)

text \<open>
  C8 (as amended). When all that precedes the assertion has completed and the visibility
  check returns, the \<^verbatim>\<open>try\<close> body returns after the settle delay of 5 seconds, and the
  cleanup block runs right after the delay. When each release returns normally, the three
  releases are performed and \<^verbatim>\<open>run_test\<close> returns without raising.
\<close>

theorem assertion_pass_completes:
  assumes "before_step sc (length (steps sc)) w = (Inr (), s1)"
    and "outcome w (length (trace s1)) = None"
    and "outcome w (Suc (length (trace s1))) = None"
  shows "try_body sc w init_state
           = (Inr (),
              s1\<lparr>trace := trace s1 @ [Context_pages_last,
                   Expect_to_be_visible (expected_text sc) (assert_timeout sc),
                   Asyncio_sleep 5]\<rparr>)
       \<and> trace (snd (run_test sc w))
           = trace s1 @ [Context_pages_last,
                   Expect_to_be_visible (expected_text sc) (assert_timeout sc),
                   Asyncio_sleep 5]
             @ attempted (outcome w) (length (trace s1) + 3)
                 [Context_close, Browser_close, Pw_stop]
       \<and> (releases_return w (snd (run_test sc w)) \<longrightarrow>
            run_test sc w
              = (Inr (),
                 s1\<lparr>trace := trace s1 @ [Context_pages_last,
                      Expect_to_be_visible (expected_text sc) (assert_timeout sc),
                      Asyncio_sleep 5, Context_close, Browser_close, Pw_stop]\<rparr>))"
proof -
  let ?sb = "s1\<lparr>trace := trace s1 @ [Context_pages_last,
                   Expect_to_be_visible (expected_text sc) (assert_timeout sc),
                   Asyncio_sleep 5]\<rparr>"
  have tb: "try_body sc w init_state = (Inr (), ?sb)"
    using assms by (simp add: try_body_via_before terminal_cases)
  have due: "due_releases ?sb = [Context_close, Browser_close, Pw_stop]"
    using before_step_handles[OF assms(1)] by (simp add: due_releases_def)
  note rt = run_test_of_body[OF tb due]
  have r2: "trace (snd (run_test sc w))
           = trace s1 @ [Context_pages_last,
                   Expect_to_be_visible (expected_text sc) (assert_timeout sc),
                   Asyncio_sleep 5]
             @ attempted (outcome w) (length (trace s1) + 3)
                 [Context_close, Browser_close, Pw_stop]"
    using rt(1) by (simp add: numeral_3_eq_3)
  have r3: "releases_return w (snd (run_test sc w)) \<longrightarrow>
            run_test sc w
              = (Inr (),
                 s1\<lparr>trace := trace s1 @ [Context_pages_last,
                      Expect_to_be_visible (expected_text sc) (assert_timeout sc),
                      Asyncio_sleep 5, Context_close, Browser_close, Pw_stop]\<rparr>)"
  proof
    assume "releases_return w (snd (run_test sc w))"
    from rt(3)[OF this] show "run_test sc w
              = (Inr (),
                 s1\<lparr>trace := trace s1 @ [Context_pages_last,
                      Expect_to_be_visible (expected_text sc) (assert_timeout sc),
                      Asyncio_sleep 5, Context_close, Browser_close, Pw_stop]\<rparr>)"
      by simp
  qed
  show ?thesis
    apply (intro conjI)
      apply (rule tb)
     apply (rule r2)
    apply (rule r3)
    done
qed

text \<open>
  Witness for C8: script TC015 with one frame, in the world where every operation
  returns.
\<close>

theorem assertion_pass_completes_witness:
  "fst (before_step TC015 (length (steps TC015)) all_return) = Inr ()
   \<and> outcome all_return 39 = None
   \<and> outcome all_return 40 = None
   \<and> releases_return all_return (snd (run_test TC015 all_return))
   \<and> fst (run_test TC015 all_return) = Inr ()
   \<and> drop 39 (trace (snd (run_test TC015 all_return)))
       = [Context_pages_last,
          Expect_to_be_visible ''text=Listing Added to Favorites and Wishlist Successfully'' 1000,
          Asyncio_sleep 5, Context_close, Browser_close, Pw_stop]"
proof -
  let ?W = "all_return"
  have "fst (before_step TC015 (length (steps TC015)) ?W) = Inr ()
      \<and> length (trace (snd (before_step TC015 (length (steps TC015)) ?W))) = 39"
    by (simp add: exec_defs TC015_def)
  then obtain s1 where b: "before_step TC015 (length (steps TC015)) ?W = (Inr (), s1)"
    and l: "length (trace s1) = 39"
    by (cases "before_step TC015 (length (steps TC015)) ?W") auto
  have h1: "fst (before_step TC015 (length (steps TC015)) ?W) = Inr ()" using b by simp
  have o39: "outcome ?W 39 = None" by (simp add: all_return_def)
  have o40: "outcome ?W 40 = None" by (simp add: all_return_def)
  have o1: "outcome ?W (length (trace s1)) = None" unfolding l by (rule o39)
  have o2: "outcome ?W (Suc (length (trace s1))) = None" unfolding l using o40 by simp
  have rr: "releases_return ?W (snd (run_test TC015 ?W))"
    by (simp add: exec_defs TC015_def releases_return_def)
  have e: "expected_text TC015 = ''text=Listing Added to Favorites and Wishlist Successfully''"
    "assert_timeout TC015 = 1000"
    by (simp_all add: TC015_def)
  from assertion_pass_completes[OF b o1 o2] rr
  have r: "run_test TC015 ?W
      = (Inr (),
         s1\<lparr>trace := trace s1 @ [Context_pages_last,
              Expect_to_be_visible (expected_text TC015) (assert_timeout TC015),
              Asyncio_sleep 5, Context_close, Browser_close, Pw_stop]\<rparr>)"
    by blast
  have c1: "fst (run_test TC015 ?W) = Inr ()" using r by simp
  have c2: "drop 39 (trace (snd (run_test TC015 all_return)))
       = [Context_pages_last,
          Expect_to_be_visible ''text=Listing Added to Favorites and Wishlist Successfully'' 1000,
          Asyncio_sleep 5, Context_close, Browser_close, Pw_stop]"
    unfolding r using l by (simp add: e)
  show ?thesis
    apply (intro conjI)
         apply (rule h1)
        apply (rule o39)
       apply (rule o40)
      apply (rule rr)
     apply (rule c1)
    apply (rule c2)
    done
qed

text \<open>
  Counterexample to C8 as stated (the scenario completes without raising): script TC018
  with one frame; every operation returns, the visibility check (position 30) included,
  except \<^verbatim>\<open>pw.stop()\<close> (position 34), which raises. The body returned, yet \<^verbatim>\<open>run_test\<close>
  raises.
\<close>

theorem passed_scenario_raises_on_stop:
  "trace (snd (run_test TC018 (raises_at 34 (PlaywrightError ''Connection closed'') all_return)))
       ! 30
     = Expect_to_be_visible ''text=Platform Load Time Benchmark Exceeded'' 1000
   \<and> outcome (raises_at 34 (PlaywrightError ''Connection closed'') all_return) 30 = None
   \<and> fst (try_body TC018 (raises_at 34 (PlaywrightError ''Connection closed'') all_return)
           init_state)
     = Inr ()
   \<and> trace (snd (run_test TC018 (raises_at 34 (PlaywrightError ''Connection closed'') all_return)))
       ! 34
     = Pw_stop
   \<and> fst (run_test TC018 (raises_at 34 (PlaywrightError ''Connection closed'') all_return))
     = Inl (PlaywrightError ''Connection closed'')"
  by (simp add: exec_defs TC018_def)


end
